theory Spec2Isabelle
  imports Main
begin

section \<open>PseudoTransport: an in-process bridge between an MCP client and an McpServer\<close>

text \<open>
  The development embeds \<^verbatim>\<open>src/client/pseudo.ts\<close>. The class \<^verbatim>\<open>PseudoTransport\<close>
  becomes a record of its private fields, extended by the part of the JavaScript runtime
  the class relies on: the FIFO queue of \<^verbatim>\<open>setTimeout(..., 0)\<close> callbacks, a counter
  naming the pending promises, and a trace of what the outside world observes (handler
  invocations, promise settlements, console warnings, uncaught exceptions).

  Handlers are references to functions of the client and of the server. A reference is a
  number; what the referenced function does when it is invoked is given by an environment:
  the calls it makes on the transport and on the proxy, in order, and whether it then
  throws. A handler may call back into the transport and the proxy in any way except
  \<^verbatim>\<open>start()\<close>, which only the client calls. Every method runs to its first timer
  boundary in one step: a caller awaits the promise it gets, and the server's
  \<^verbatim>\<open>connect\<close> settles in the turn that calls it. An exception that escapes a timer
  callback is recorded as uncaught and the event loop goes on, as in a browser.
\<close>

subsection \<open>Values\<close>

datatype jsvalue =
    JUndefined
  | JNull
  | JBool bool
  | JNum int
  | JStr string
  | JArr "jsvalue list"
  | JObj "(string \<times> jsvalue) list"

text \<open>Instances of \<^verbatim>\<open>Error\<close>, told apart by their message; a \<^verbatim>\<open>TypeError\<close> is one.\<close>

datatype js_error = Error string | TypeError string

text \<open>
  What a \<^verbatim>\<open>throw\<close> can carry: an \<^verbatim>\<open>Error\<close> instance, or a primitive that is not one
  (numbers and objects, whose string conversion needs float printing and user code, are
  left out).
\<close>

datatype primitive = PUndefined | PNull | PBool bool | PString string

datatype thrown = Thrown_error js_error | Thrown_primitive primitive

fun String :: "primitive \<Rightarrow> string" where
  "String PUndefined = ''undefined''"
| "String PNull = ''null''"
| "String (PBool b) = (if b then ''true'' else ''false'')"
| "String (PString s) = s"

text \<open>\<^verbatim>\<open>error instanceof Error ? error : new Error(String(error))\<close>, in both deliveries.\<close>

fun as_Error :: "thrown \<Rightarrow> js_error" where
  "as_Error (Thrown_error e) = e"
| "as_Error (Thrown_primitive v) = Error (String v)"

text \<open>\<^verbatim>\<open>error instanceof Error ? error : new Error("Failed to connect internal McpServer")\<close>, in start.\<close>

fun connect_failure :: "thrown \<Rightarrow> js_error" where
  "connect_failure (Thrown_error e) = e"
| "connect_failure (Thrown_primitive v) = Error ''Failed to connect internal McpServer''"

definition AlreadyStarted :: js_error where
  "AlreadyStarted = Error ''PseudoTransport already started!''"

definition NotStarted :: js_error where
  "NotStarted = Error ''PseudoTransport is not started.''"

definition PeerUnavailable :: js_error where
  "PeerUnavailable =
     Error ''PseudoTransport: McpServer handler not available or server not connected.''"

definition InvalidArgument :: js_error where
  "InvalidArgument = Error ''McpServer instance is required for PseudoTransport.''"

text \<open>Calling \<^verbatim>\<open>undefined\<close> as a function; the message text depends on the engine.\<close>

definition not_a_function :: js_error where
  "not_a_function = TypeError ''self._clientMessageHandler is not a function''"

subsection \<open>The bridge and the runtime around it\<close>

type_synonym handler = nat

datatype task =
    Deliver_server nat handler jsvalue
  | Deliver_client jsvalue
  | Close_notify "handler option"
  | Start_resume nat

datatype event =
    Server_message handler jsvalue
  | Client_message handler jsvalue
  | Client_error handler js_error
  | Client_close handler
  | Send_fulfilled nat
  | Send_rejected nat js_error
  | Start_fulfilled nat
  | Console_warn string
  | Uncaught thrown

record world =
  started :: bool
  mcpServer :: nat
  isServerConnected :: bool
  clientMessageHandler :: "handler option"
  clientErrorHandler :: "handler option"
  clientCloseHandler :: "handler option"
  serverMessageHandler :: "handler option"
  timers :: "task list"
  nextPromise :: nat
  trace :: "event list"

text \<open>
  The calls a handler, the server's connect operation or the client can make: on the
  transport itself, and on the proxy that \<^verbatim>\<open>start\<close> hands to the server. The proxy keeps
  no state of its own (its methods read and write the fields of the transport through
  \<^verbatim>\<open>self\<close>), so every proxy ever handed out behaves alike.
\<close>

datatype call =
    Call_send jsvalue
  | Call_close
  | Set_onmessage "handler option"
  | Set_onerror "handler option"
  | Set_onclose "handler option"
  | Proxy_set_onmessage "handler option"
  | Proxy_send jsvalue
  | Proxy_start
  | Proxy_close

datatype call_result =
    Returned
  | Promise_fulfilled
  | Promise_rejected thrown
  | Promise_pending nat

type_synonym behaviour = "call list \<times> thrown option"

record env =
  connect :: "nat \<Rightarrow> behaviour"
  message_handler :: "handler \<Rightarrow> jsvalue \<Rightarrow> behaviour"
  error_handler :: "handler \<Rightarrow> js_error \<Rightarrow> behaviour"
  close_handler :: "handler \<Rightarrow> behaviour"

subsection \<open>Construction and handler registration\<close>

definition new_PseudoTransport :: "nat option \<Rightarrow> js_error + world" where
  "new_PseudoTransport server =
     (case server of
        None \<Rightarrow> Inl InvalidArgument
      | Some s \<Rightarrow> Inr \<lparr> started = False, mcpServer = s, isServerConnected = False,
                       clientMessageHandler = None, clientErrorHandler = None,
                       clientCloseHandler = None, serverMessageHandler = None,
                       timers = [], nextPromise = 0, trace = [] \<rparr>)"

definition set_onmessage :: "handler option \<Rightarrow> world \<Rightarrow> world" where
  "set_onmessage h w = w\<lparr>clientMessageHandler := h\<rparr>"

definition set_onerror :: "handler option \<Rightarrow> world \<Rightarrow> world" where
  "set_onerror h w = w\<lparr>clientErrorHandler := h\<rparr>"

definition set_onclose :: "handler option \<Rightarrow> world \<Rightarrow> world" where
  "set_onclose h w = w\<lparr>clientCloseHandler := h\<rparr>"

subsection \<open>The proxy handed to the server\<close>

definition proxy_set_onmessage :: "handler option \<Rightarrow> world \<Rightarrow> world" where
  "proxy_set_onmessage h w =
     (let w' = w\<lparr>serverMessageHandler := h\<rparr>
      in if h \<noteq> None then w'\<lparr>isServerConnected := True\<rparr>
         else w'\<lparr>isServerConnected := False\<rparr>)"

definition proxy_send :: "jsvalue \<Rightarrow> world \<Rightarrow> call_result \<times> world" where
  "proxy_send message w =
     (if clientMessageHandler w \<noteq> None
      then (Promise_fulfilled, w\<lparr>timers := timers w @ [Deliver_client message]\<rparr>)
      else (Promise_fulfilled, w))"

definition proxy_start :: "world \<Rightarrow> call_result \<times> world" where
  "proxy_start w = (Promise_fulfilled, w)"

definition proxy_close :: "world \<Rightarrow> call_result \<times> world" where
  "proxy_close w = (Promise_fulfilled, w\<lparr>isServerConnected := False\<rparr>)"

subsection \<open>close and send\<close>

definition close :: "world \<Rightarrow> call_result \<times> world" where
  "close w =
     (if \<not> started w then (Promise_fulfilled, w)
      else
        let clientCloseHandler' = clientCloseHandler w;
            w1 = w\<lparr>started := False, isServerConnected := False\<rparr>;
            w2 = w1\<lparr>serverMessageHandler := None, clientMessageHandler := None,
                    clientErrorHandler := None, clientCloseHandler := None\<rparr>
        in (Promise_fulfilled, w2\<lparr>timers := timers w2 @ [Close_notify clientCloseHandler']\<rparr>))"

definition send :: "jsvalue \<Rightarrow> world \<Rightarrow> call_result \<times> world" where
  "send message w =
     (if \<not> started w then (Promise_rejected (Thrown_error NotStarted), w)
      else if serverMessageHandler w = None \<or> \<not> isServerConnected w
      then (Promise_rejected (Thrown_error PeerUnavailable), w)
      else
        (case serverMessageHandler w of
           Some serverHandler \<Rightarrow>
             (Promise_pending (nextPromise w),
              w\<lparr>timers := timers w @ [Deliver_server (nextPromise w) serverHandler message],
                nextPromise := Suc (nextPromise w)\<rparr>)
         | None \<Rightarrow> (Promise_rejected (Thrown_error PeerUnavailable), w)))"

subsection \<open>Calls made from outside, and from inside handlers\<close>

definition exec_call :: "call \<Rightarrow> world \<Rightarrow> call_result \<times> world" where
  "exec_call c w =
     (case c of
        Call_send m \<Rightarrow> send m w
      | Call_close \<Rightarrow> close w
      | Set_onmessage h \<Rightarrow> (Returned, set_onmessage h w)
      | Set_onerror h \<Rightarrow> (Returned, set_onerror h w)
      | Set_onclose h \<Rightarrow> (Returned, set_onclose h w)
      | Proxy_set_onmessage h \<Rightarrow> (Returned, proxy_set_onmessage h w)
      | Proxy_send m \<Rightarrow> proxy_send m w
      | Proxy_start \<Rightarrow> proxy_start w
      | Proxy_close \<Rightarrow> proxy_close w)"

fun exec_calls :: "call list \<Rightarrow> world \<Rightarrow> call_result list \<times> world" where
  "exec_calls [] w = ([], w)"
| "exec_calls (c # cs) w =
     (let (r, w1) = exec_call c w; (rs, w2) = exec_calls cs w1 in (r # rs, w2))"

definition log :: "event \<Rightarrow> world \<Rightarrow> world" where
  "log e w = w\<lparr>trace := trace w @ [e]\<rparr>"

text \<open>\<^verbatim>\<open>this._clientErrorHandler?.(err)\<close>: the value is what the handler throws, if anything.\<close>

definition invoke_onerror :: "env \<Rightarrow> js_error \<Rightarrow> world \<Rightarrow> thrown option \<times> world" where
  "invoke_onerror env err w =
     (case clientErrorHandler w of
        None \<Rightarrow> (None, w)
      | Some eh \<Rightarrow>
          (snd (error_handler env eh err),
           snd (exec_calls (fst (error_handler env eh err)) (log (Client_error eh err) w))))"

subsection \<open>start\<close>

definition start :: "env \<Rightarrow> world \<Rightarrow> call_result \<times> world" where
  "start env w =
     (if started w then (Promise_rejected (Thrown_error AlreadyStarted), w)
      else
        let w1 = snd (exec_calls (fst (connect env (mcpServer w))) w)
        in (case snd (connect env (mcpServer w)) of
              None \<Rightarrow>
                (if serverMessageHandler w1 = None
                 then (Promise_pending (nextPromise w1),
                       w1\<lparr>timers := timers w1 @ [Start_resume (nextPromise w1)],
                          nextPromise := Suc (nextPromise w1)\<rparr>)
                 else (Promise_fulfilled, w1\<lparr>started := True\<rparr>))
            | Some error \<Rightarrow>
                (let err = connect_failure error
                 in (case invoke_onerror env err w1 of
                       (Some thrown', w2) \<Rightarrow> (Promise_rejected thrown', w2)
                     | (None, w2) \<Rightarrow>
                         (Promise_rejected (Thrown_error err), w2\<lparr>started := False\<rparr>)))))"

subsection \<open>The deferred tasks\<close>

definition start_resume :: "nat \<Rightarrow> world \<Rightarrow> world" where
  "start_resume p w =
     (let w1 = (if serverMessageHandler w = None
                then log (Console_warn ''[PseudoTransport] McpServer did NOT set a message handler after connect completed. Client requests might fail.'') w
                else w)
      in log (Start_fulfilled p) (w1\<lparr>started := True\<rparr>))"

definition deliver_server :: "env \<Rightarrow> nat \<Rightarrow> handler \<Rightarrow> jsvalue \<Rightarrow> world \<Rightarrow> world" where
  "deliver_server env p serverHandler message w =
     (let w1 = snd (exec_calls (fst (message_handler env serverHandler message))
                      (log (Server_message serverHandler message) w))
      in (case snd (message_handler env serverHandler message) of
            None \<Rightarrow> log (Send_fulfilled p) w1
          | Some error \<Rightarrow>
              (let err = as_Error error
               in (case invoke_onerror env err w1 of
                     (Some thrown', w2) \<Rightarrow> log (Uncaught thrown') w2
                   | (None, w2) \<Rightarrow> log (Send_rejected p err) w2))))"

definition report_error :: "env \<Rightarrow> js_error \<Rightarrow> world \<Rightarrow> world" where
  "report_error env err w =
     (case invoke_onerror env err w of
        (Some thrown', w') \<Rightarrow> log (Uncaught thrown') w'
      | (None, w') \<Rightarrow> w')"

definition deliver_client :: "env \<Rightarrow> jsvalue \<Rightarrow> world \<Rightarrow> world" where
  "deliver_client env message w =
     (case clientMessageHandler w of
        None \<Rightarrow> report_error env not_a_function w
      | Some h \<Rightarrow>
          (let w1 = snd (exec_calls (fst (message_handler env h message))
                           (log (Client_message h message) w))
           in (case snd (message_handler env h message) of
                 None \<Rightarrow> w1
               | Some error \<Rightarrow> report_error env (as_Error error) w1)))"

definition close_notify :: "env \<Rightarrow> handler option \<Rightarrow> world \<Rightarrow> world" where
  "close_notify env clientCloseHandler' w =
     (case clientCloseHandler' of
        None \<Rightarrow> w
      | Some h \<Rightarrow>
          (let w1 = snd (exec_calls (fst (close_handler env h)) (log (Client_close h) w))
           in (case snd (close_handler env h) of
                 None \<Rightarrow> w1
               | Some thrown' \<Rightarrow> log (Uncaught thrown') w1)))"

fun run_task :: "env \<Rightarrow> task \<Rightarrow> world \<Rightarrow> world" where
  "run_task env (Deliver_server p h m) w = deliver_server env p h m w"
| "run_task env (Deliver_client m) w = deliver_client env m w"
| "run_task env (Close_notify h) w = close_notify env h w"
| "run_task env (Start_resume p) w = start_resume p w"

text \<open>One turn of the event loop: the oldest timer callback, if there is one.\<close>

definition tick :: "env \<Rightarrow> world \<Rightarrow> world" where
  "tick env w =
     (case timers w of
        [] \<Rightarrow> w
      | t # ts \<Rightarrow> run_task env t (w\<lparr>timers := ts\<rparr>))"

fun run_loop :: "env \<Rightarrow> nat \<Rightarrow> world \<Rightarrow> world" where
  "run_loop env 0 w = w"
| "run_loop env (Suc n) w = run_loop env n (tick env w)"

subsection \<open>Sequences of operations on one instance\<close>

datatype op = Op_start | Op_call call | Op_tick

fun apply_op :: "env \<Rightarrow> op \<Rightarrow> world \<Rightarrow> world" where
  "apply_op env Op_start w = snd (start env w)"
| "apply_op env (Op_call c) w = snd (exec_call c w)"
| "apply_op env Op_tick w = tick env w"

fun run_ops :: "env \<Rightarrow> op list \<Rightarrow> world \<Rightarrow> world" where
  "run_ops env [] w = w"
| "run_ops env (x # xs) w = run_ops env xs (apply_op env x w)"

subsection \<open>The collaborators of the test suite\<close>

text \<open>
  The mock server of \<^verbatim>\<open>pseudo.test.ts\<close> registers, in its connect operation, a message
  handler that answers a request (a message with an \<^verbatim>\<open>id\<close> and a \<^verbatim>\<open>method\<close>) by sending
  \<^verbatim>\<open>{jsonrpc: "2.0", id: msg.id, result: {echoed: msg.params}}\<close> through the transport it
  was given. Its test \<^verbatim>\<open>"id" in msg && "method" in msg\<close> throws a \<^verbatim>\<open>TypeError\<close> when the
  message is not an object; an array is an object that has neither key. An object is
  given by its own properties, each key listed once; \<^verbatim>\<open>msg.k\<close> is \<^verbatim>\<open>undefined\<close> for a
  key it does not list (the keys read here are none that a prototype defines).
\<close>

text \<open>The right-hand side of \<^verbatim>\<open>in\<close> is not an object; the message text depends on the engine.\<close>

definition not_an_object :: js_error where
  "not_an_object = TypeError ''Cannot use the in operator to search for id in a value that is not an object''"

definition get_prop :: "string \<Rightarrow> (string \<times> jsvalue) list \<Rightarrow> jsvalue" where
  "get_prop k kvs = (case map_of kvs k of Some v \<Rightarrow> v | None \<Rightarrow> JUndefined)"

fun echo_onmessage :: "jsvalue \<Rightarrow> behaviour" where
  "echo_onmessage (JObj kvs) =
     (if ''id'' \<in> set (map fst kvs) \<and> ''method'' \<in> set (map fst kvs)
      then ([Proxy_send (JObj [(''jsonrpc'', JStr ''2.0''), (''id'', get_prop ''id'' kvs),
                               (''result'', JObj [(''echoed'', get_prop ''params'' kvs)])])],
            None)
      else ([], None))"
| "echo_onmessage (JArr xs) = ([], None)"
| "echo_onmessage v = ([], Some (Thrown_error not_an_object))"

text \<open>
  Servers: 0 registers the echo handler (reference 1); 1 registers a handler that throws
  \<^verbatim>\<open>new Error("server fail")\<close> (reference 5); 2 fails to connect with
  \<^verbatim>\<open>new Error("boom")\<close>; 3 fails to connect with the string \<^verbatim>\<open>"boom"\<close>; every other
  server connects without registering anything.
  Client handlers: 2 records messages, 3 records errors, 4 records the close, 6 throws
  \<^verbatim>\<open>new Error("client fail")\<close>, 7 throws the string \<^verbatim>\<open>"oops"\<close>, 8 is an error handler that
  throws itself, 9 is a close handler that calls \<^verbatim>\<open>close()\<close> and \<^verbatim>\<open>send(null)\<close> again,
  10 is a close handler that calls \<^verbatim>\<open>send(null)\<close>, 11 is a message handler that assigns
  the handlers 2, 3 and 4 to the transport and the handler 1 to the proxy.
\<close>

definition test_env :: env where
  "test_env =
     \<lparr> connect =
         (\<lambda>s. if s = 0 then ([Proxy_set_onmessage (Some 1)], None)
              else if s = 1 then ([Proxy_set_onmessage (Some 5)], None)
              else if s = 2 then ([], Some (Thrown_error (Error ''boom'')))
              else if s = 3 then ([], Some (Thrown_primitive (PString ''boom'')))
              else ([], None)),
       message_handler =
         (\<lambda>h m. if h = 1 then echo_onmessage m
                else if h = 5 then ([], Some (Thrown_error (Error ''server fail'')))
                else if h = 6 then ([], Some (Thrown_error (Error ''client fail'')))
                else if h = 7 then ([], Some (Thrown_primitive (PString ''oops'')))
                else if h = 11 then ([Set_onmessage (Some 2), Set_onerror (Some 3),
                                      Set_onclose (Some 4), Proxy_set_onmessage (Some 1)], None)
                else ([], None)),
       error_handler =
         (\<lambda>h e. if h = 8 then ([], Some (Thrown_error (Error ''handler fail'')))
                else ([], None)),
       close_handler =
         (\<lambda>h. if h = 9 then ([Call_close, Call_send JNull], None)
              else if h = 10 then ([Call_send JNull], None)
              else ([], None)) \<rparr>"

definition fresh :: "nat \<Rightarrow> world" where
  "fresh s = \<lparr> started = False, mcpServer = s, isServerConnected = False,
               clientMessageHandler = None, clientErrorHandler = None,
               clientCloseHandler = None, serverMessageHandler = None,
               timers = [], nextPromise = 0, trace = [] \<rparr>"

text \<open>The state after registering the handlers 2, 3 and 4 and starting against server 0.\<close>

definition wired :: world where
  "wired = \<lparr> started = True, mcpServer = 0, isServerConnected = True,
             clientMessageHandler = Some 2, clientErrorHandler = Some 3,
             clientCloseHandler = Some 4, serverMessageHandler = Some 1,
             timers = [], nextPromise = 0, trace = [] \<rparr>"

text \<open>The same, with the close handler 9 registered instead of 4.\<close>

definition wired_reentrant :: world where
  "wired_reentrant = wired\<lparr>clientCloseHandler := Some 9\<rparr>"

text \<open>
  The state after starting against server 1, whose message handler 5 throws.
\<close>

definition wired_failing :: world where
  "wired_failing = wired\<lparr>mcpServer := 1, serverMessageHandler := Some 5\<rparr>"

definition echo_request :: jsvalue where
  "echo_request =
     JObj [(''jsonrpc'', JStr ''2.0''), (''id'', JStr ''1''), (''method'', JStr ''echo''),
           (''params'', JObj [(''foo'', JStr ''bar'')])]"

definition echo_response :: jsvalue where
  "echo_response =
     JObj [(''jsonrpc'', JStr ''2.0''), (''id'', JStr ''1''),
           (''result'', JObj [(''echoed'', JObj [(''foo'', JStr ''bar'')])])]"

subsection \<open>Reading traces and timer queues\<close>

text \<open>
  The observations the properties below are stated with: the invocations of a close
  handler in a trace, the task that completes a start that yielded to the timer queue,
  and the task that will invoke a registered close handler.
\<close>

fun is_close_event :: "event \<Rightarrow> bool" where
  "is_close_event (Client_close h) = True"
| "is_close_event _ = False"

fun starts_bridge :: "task \<Rightarrow> bool" where
  "starts_bridge (Start_resume p) = True"
| "starts_bridge _ = False"

fun notifies_close :: "task \<Rightarrow> bool" where
  "notifies_close (Close_notify (Some h)) = True"
| "notifies_close _ = False"


section \<open>Properties\<close>

subsection \<open>Basic facts\<close>

lemma new_PseudoTransport_fresh: "new_PseudoTransport (Some s) = Inr (fresh s)"
  by (simp add: new_PseudoTransport_def fresh_def)

lemma wired_reachable:
  "run_ops test_env [Op_call (Set_onmessage (Some 2)), Op_call (Set_onerror (Some 3)),
                     Op_call (Set_onclose (Some 4)), Op_start] (fresh 0) = wired"
  by (simp add: test_env_def fresh_def wired_def start_def exec_call_def set_onmessage_def
      set_onerror_def set_onclose_def proxy_set_onmessage_def Let_def)

lemma wired_failing_reachable:
  "run_ops test_env [Op_call (Set_onmessage (Some 2)), Op_call (Set_onerror (Some 3)),
                     Op_call (Set_onclose (Some 4)), Op_start] (fresh 1) = wired_failing"
  by (simp add: test_env_def fresh_def wired_failing_def wired_def start_def exec_call_def
      set_onmessage_def set_onerror_def set_onclose_def proxy_set_onmessage_def Let_def)

lemma wired_reentrant_reachable:
  "run_ops test_env [Op_call (Set_onmessage (Some 2)), Op_call (Set_onerror (Some 3)),
                     Op_call (Set_onclose (Some 9)), Op_start] (fresh 0) = wired_reentrant"
  by (simp add: test_env_def fresh_def wired_reentrant_def wired_def start_def exec_call_def
      set_onmessage_def set_onerror_def set_onclose_def proxy_set_onmessage_def Let_def)

lemma trace_log [simp]: "trace (log e w) = trace w @ [e]"
  by (simp add: log_def)

lemma log_fields [simp]:
  "started (log e w) = started w"
  "isServerConnected (log e w) = isServerConnected w"
  "clientMessageHandler (log e w) = clientMessageHandler w"
  "clientErrorHandler (log e w) = clientErrorHandler w"
  "clientCloseHandler (log e w) = clientCloseHandler w"
  "serverMessageHandler (log e w) = serverMessageHandler w"
  "timers (log e w) = timers w"
  "nextPromise (log e w) = nextPromise w"
  "mcpServer (log e w) = mcpServer w"
  by (simp_all add: log_def)

lemmas call_defs =
  exec_call_def send_def close_def set_onmessage_def set_onerror_def set_onclose_def
  proxy_set_onmessage_def proxy_send_def proxy_start_def proxy_close_def

lemmas run_defs =
  test_env_def fresh_def wired_def wired_failing_def echo_request_def
  start_def call_defs tick_def deliver_server_def deliver_client_def close_notify_def
  start_resume_def report_error_def invoke_onerror_def log_def Let_def

text \<open>No call touches the trace: only handler invocations and settlements are recorded.\<close>

lemma exec_call_trace [simp]: "trace (snd (exec_call c w)) = trace w"
  by (cases c) (auto simp: call_defs Let_def split: option.splits)

lemma exec_calls_trace [simp]: "trace (snd (exec_calls cs w)) = trace w"
  by (induction cs arbitrary: w) (auto simp: split_beta Let_def)

lemma exec_call_trace_update:
  "exec_call c (w\<lparr>trace := x\<rparr>) = (fst (exec_call c w), (snd (exec_call c w))\<lparr>trace := x\<rparr>)"
  by (cases c) (auto simp: call_defs Let_def split: option.splits)

lemma exec_calls_trace_update:
  "exec_calls cs (w\<lparr>trace := x\<rparr>) = (fst (exec_calls cs w), (snd (exec_calls cs w))\<lparr>trace := x\<rparr>)"
proof (induction cs arbitrary: w)
  case Nil
  then show ?case by simp
next
  case (Cons c cs)
  show ?case
    by (simp add: exec_call_trace_update Cons.IH split_beta Let_def)
qed

lemma exec_calls_log:
  "snd (exec_calls cs (log e w)) = log e (snd (exec_calls cs w))"
  by (simp add: log_def exec_calls_trace_update [where x = "trace w @ [e]"])

subsection \<open>What a delivery leaves in the trace\<close>

lemma deliver_server_returns:
  "snd (message_handler env h m) = None \<Longrightarrow>
   trace (deliver_server env p h m u) = trace u @ [Server_message h m, Send_fulfilled p]"
  by (simp add: deliver_server_def Let_def)

lemma deliver_server_raises_unobserved:
  "snd (message_handler env h m) = Some t \<Longrightarrow>
   clientErrorHandler (snd (exec_calls (fst (message_handler env h m)) u)) = None \<Longrightarrow>
   trace (deliver_server env p h m u) =
     trace u @ [Server_message h m, Send_rejected p (as_Error t)]"
  by (simp add: deliver_server_def Let_def exec_calls_log invoke_onerror_def)

lemma deliver_server_raises_observed:
  "snd (message_handler env h m) = Some t \<Longrightarrow>
   clientErrorHandler (snd (exec_calls (fst (message_handler env h m)) u)) = Some eh \<Longrightarrow>
   trace (deliver_server env p h m u) =
     trace u @ [Server_message h m, Client_error eh (as_Error t)] @
       (case snd (error_handler env eh (as_Error t)) of
          None \<Rightarrow> [Send_rejected p (as_Error t)]
        | Some t' \<Rightarrow> [Uncaught t'])"
  by (simp add: deliver_server_def Let_def exec_calls_log invoke_onerror_def
      split: option.splits)

lemma deliver_client_returns:
  "clientMessageHandler u = Some ch \<Longrightarrow>
   snd (message_handler env ch m) = None \<Longrightarrow>
   trace (deliver_client env m u) = trace u @ [Client_message ch m]"
  by (simp add: deliver_client_def Let_def)

lemma deliver_client_raises_observed:
  "clientMessageHandler u = Some ch \<Longrightarrow>
   snd (message_handler env ch m) = Some t \<Longrightarrow>
   clientErrorHandler (snd (exec_calls (fst (message_handler env ch m)) u)) = Some eh \<Longrightarrow>
   trace (deliver_client env m u) =
     trace u @ [Client_message ch m, Client_error eh (as_Error t)] @
       (case snd (error_handler env eh (as_Error t)) of
          None \<Rightarrow> []
        | Some t' \<Rightarrow> [Uncaught t'])"
  by (simp add: deliver_client_def report_error_def Let_def exec_calls_log invoke_onerror_def
      split: option.splits)

subsection \<open>The trace only grows\<close>

lemma invoke_onerror_trace:
  "\<exists>rest. trace (snd (invoke_onerror env err w)) = trace w @ rest"
  by (simp add: invoke_onerror_def exec_calls_log split: option.splits)

lemma report_error_trace:
  "\<exists>rest. trace (report_error env err w) = trace w @ rest"
  using invoke_onerror_trace [of env err w]
  by (auto simp: report_error_def split: prod.splits option.splits)

lemma deliver_client_trace:
  "clientMessageHandler u = Some ch \<Longrightarrow>
   \<exists>rest. trace (deliver_client env m u) = trace u @ [Client_message ch m] @ rest"
  using report_error_trace [of env _ "snd (exec_calls (fst (message_handler env ch m)) (log (Client_message ch m) u))"]
  by (auto simp: deliver_client_def Let_def split: option.splits)

lemma run_task_trace:
  "\<exists>rest. trace (run_task env t w) = trace w @ rest"
proof (cases t)
  case (Deliver_server p h m)
  let ?u = "snd (exec_calls (fst (message_handler env h m)) (log (Server_message h m) w))"
  have tu: "trace ?u = trace w @ [Server_message h m]"
    by (simp add: exec_calls_log)
  show ?thesis
  proof (cases "snd (message_handler env h m)")
    case None
    then show ?thesis
      by (simp add: Deliver_server deliver_server_def Let_def)
  next
    case (Some t)
    obtain r where "trace (snd (invoke_onerror env (as_Error t) ?u)) = trace ?u @ r"
      using invoke_onerror_trace by blast
    then show ?thesis
      using tu
      by (cases "invoke_onerror env (as_Error t) ?u")
        (auto simp: Deliver_server deliver_server_def Let_def Some split: option.splits)
  qed
next
  case (Deliver_client m)
  show ?thesis
  proof (cases "clientMessageHandler w")
    case None
    then show ?thesis
      using report_error_trace [of env not_a_function w]
      by (simp add: Deliver_client deliver_client_def)
  next
    case (Some ch)
    then show ?thesis
      using deliver_client_trace [of w ch env m] by (auto simp: Deliver_client)
  qed
next
  case (Close_notify h)
  then show ?thesis
    by (auto simp: close_notify_def Let_def split: option.splits)
next
  case (Start_resume p)
  then show ?thesis
    by (auto simp: start_resume_def Let_def)
qed

lemma tick_trace: "\<exists>rest. trace (tick env w) = trace w @ rest"
proof (cases "timers w")
  case Nil
  then show ?thesis by (simp add: tick_def)
next
  case (Cons t ts)
  then show ?thesis
    using run_task_trace [of env t "w\<lparr>timers := ts\<rparr>"] by (simp add: tick_def)
qed

lemma run_loop_trace: "\<exists>rest. trace (run_loop env n w) = trace w @ rest"
proof (induction n arbitrary: w)
  case 0
  then show ?case by simp
next
  case (Suc n)
  obtain r1 where r1: "trace (tick env w) = trace w @ r1"
    using tick_trace by blast
  obtain r2 where "trace (run_loop env n (tick env w)) = trace (tick env w) @ r2"
    using Suc.IH by blast
  with r1 show ?case by simp
qed

subsection \<open>A bridge that is not started stays so until a start\<close>

lemma exec_call_unstarted:
  assumes "\<not> started w"
  shows "\<not> started (snd (exec_call c w))"
    and "\<exists>ms. timers (snd (exec_call c w)) = timers w @ map Deliver_client ms"
proof -
  show "\<not> started (snd (exec_call c w))"
    using assms by (cases c) (auto simp: call_defs Let_def)
  show "\<exists>ms. timers (snd (exec_call c w)) = timers w @ map Deliver_client ms"
  proof (cases c)
    case (Proxy_send m)
    have "timers w @ [Deliver_client m] = timers w @ map Deliver_client [m]" by simp
    moreover have "timers w = timers w @ map Deliver_client []" by simp
    ultimately show ?thesis
      unfolding Proxy_send exec_call_def proxy_send_def by (auto simp del: append_Nil2 list.map)
  qed (use assms in \<open>auto simp: call_defs Let_def\<close>)
qed

lemma exec_calls_unstarted:
  assumes "\<not> started w"
  shows "\<not> started (snd (exec_calls cs w))
     \<and> (\<exists>ms. timers (snd (exec_calls cs w)) = timers w @ map Deliver_client ms)"
  using assms
proof (induction cs arbitrary: w)
  case Nil
  then show ?case by simp
next
  case (Cons c cs)
  let ?w1 = "snd (exec_call c w)"
  from Cons.prems have u: "\<not> started ?w1"
    and "\<exists>ms. timers ?w1 = timers w @ map Deliver_client ms"
    by (rule exec_call_unstarted)+
  then obtain ms1 where ms1: "timers ?w1 = timers w @ map Deliver_client ms1" by blast
  from Cons.IH [OF u] obtain ms2 where
    v: "\<not> started (snd (exec_calls cs ?w1))"
    and ms2: "timers (snd (exec_calls cs ?w1)) = timers ?w1 @ map Deliver_client ms2"
    by blast
  have "timers (snd (exec_calls cs ?w1)) = timers w @ map Deliver_client (ms1 @ ms2)"
    by (simp add: ms1 ms2)
  then have "\<exists>ms. timers (snd (exec_calls cs ?w1)) = timers w @ map Deliver_client ms"
    by blast
  with v show ?case
    by (simp add: split_beta Let_def)
qed

lemma exec_calls_unstarted_sends:
  "\<not> started w \<Longrightarrow> i < length cs \<Longrightarrow> cs ! i = Call_send m \<Longrightarrow>
   fst (exec_calls cs w) ! i = Promise_rejected (Thrown_error NotStarted)"
proof (induction cs arbitrary: w i)
  case Nil
  then show ?case by simp
next
  case (Cons c cs)
  show ?case
  proof (cases i)
    case 0
    with Cons.prems show ?thesis
      by (simp add: split_beta Let_def exec_call_def send_def)
  next
    case (Suc j)
    from Cons.prems(1) have "\<not> started (snd (exec_call c w))"
      by (rule exec_call_unstarted)
    moreover have "j < length cs" and "cs ! j = Call_send m"
      using Cons.prems Suc by simp_all
    ultimately have "fst (exec_calls cs (snd (exec_call c w))) ! j
        = Promise_rejected (Thrown_error NotStarted)"
      by (rule Cons.IH)
    then show ?thesis
      by (simp add: Suc split_beta Let_def)
  qed
qed


lemma invoke_onerror_unstarted:
  assumes "\<not> started w"
  shows "\<not> started (snd (invoke_onerror env err w))
     \<and> (\<exists>ms. timers (snd (invoke_onerror env err w)) = timers w @ map Deliver_client ms)"
proof (cases "clientErrorHandler w")
  case None
  then show ?thesis
    using assms by (simp add: invoke_onerror_def)
next
  case (Some eh)
  then show ?thesis
    using exec_calls_unstarted [OF assms, of "fst (error_handler env eh err)"]
    by (simp add: invoke_onerror_def exec_calls_log)
qed

lemma invoke_onerror_closes:
  "filter is_close_event (trace (snd (invoke_onerror env err w))) = filter is_close_event (trace w)"
  by (simp add: invoke_onerror_def exec_calls_log split: option.splits)

lemma report_error_unstarted:
  assumes "\<not> started w"
  shows "\<not> started (report_error env err w)
     \<and> (\<exists>ms. timers (report_error env err w) = timers w @ map Deliver_client ms)"
  using invoke_onerror_unstarted [OF assms, of env err]
  by (cases "invoke_onerror env err w") (auto simp: report_error_def split: option.splits)

lemma report_error_closes:
  "filter is_close_event (trace (report_error env err w)) = filter is_close_event (trace w)"
  using invoke_onerror_closes [of env err w]
  by (cases "invoke_onerror env err w") (auto simp: report_error_def split: option.splits)

lemma map_Deliver_client_append:
  "xs = ys @ map Deliver_client ms1 \<Longrightarrow> zs = xs @ map Deliver_client ms2 \<Longrightarrow>
   \<exists>ms. zs = ys @ map Deliver_client ms"
  by (metis append.assoc map_append)

lemma run_task_unstarted:
  assumes "\<not> started w" and "\<not> starts_bridge t"
  shows "\<not> started (run_task env t w)
     \<and> (\<exists>ms. timers (run_task env t w) = timers w @ map Deliver_client ms)"
proof (cases t)
  case (Deliver_server p h m)
  let ?u = "snd (exec_calls (fst (message_handler env h m)) w)"
  from exec_calls_unstarted [OF assms(1), of "fst (message_handler env h m)"]
  obtain ms1 where u: "\<not> started ?u" and ms1: "timers ?u = timers w @ map Deliver_client ms1"
    by blast
  show ?thesis
  proof (cases "snd (message_handler env h m)")
    case None
    then show ?thesis
      using u ms1 by (auto simp: Deliver_server deliver_server_def Let_def exec_calls_log)
  next
    case (Some e)
    let ?v = "log (Server_message h m) ?u"
    have v: "\<not> started ?v" and tv: "timers ?v = timers w @ map Deliver_client ms1"
      using u ms1 by simp_all
    from invoke_onerror_unstarted [OF v, of env "as_Error e"] obtain ms2 where
      x: "\<not> started (snd (invoke_onerror env (as_Error e) ?v))"
      and ms2: "timers (snd (invoke_onerror env (as_Error e) ?v)) = timers ?v @ map Deliver_client ms2"
      by blast
    from map_Deliver_client_append [OF tv ms2]
    have "\<exists>ms. timers (snd (invoke_onerror env (as_Error e) ?v)) = timers w @ map Deliver_client ms" .
    with x show ?thesis
      by (cases "invoke_onerror env (as_Error e) ?v")
        (auto simp: Deliver_server deliver_server_def Let_def exec_calls_log Some split: option.splits)
  qed
next
  case (Deliver_client m)
  show ?thesis
  proof (cases "clientMessageHandler w")
    case None
    then show ?thesis
      using report_error_unstarted [OF assms(1), of env not_a_function]
      by (simp add: Deliver_client deliver_client_def)
  next
    case (Some h)
    let ?u = "snd (exec_calls (fst (message_handler env h m)) w)"
    from exec_calls_unstarted [OF assms(1), of "fst (message_handler env h m)"]
    obtain ms1 where u: "\<not> started ?u" and ms1: "timers ?u = timers w @ map Deliver_client ms1"
      by blast
    let ?v = "log (Client_message h m) ?u"
    have v: "\<not> started ?v" and tv: "timers ?v = timers w @ map Deliver_client ms1"
      using u ms1 by simp_all
    show ?thesis
    proof (cases "snd (message_handler env h m)")
      case None
      then show ?thesis
        using v tv \<open>clientMessageHandler w = Some h\<close>
        by (auto simp: Deliver_client deliver_client_def Let_def exec_calls_log)
    next
      case (Some e)
      from report_error_unstarted [OF v, of env "as_Error e"] obtain ms2 where
        x: "\<not> started (report_error env (as_Error e) ?v)"
        and ms2: "timers (report_error env (as_Error e) ?v) = timers ?v @ map Deliver_client ms2"
        by blast
      from map_Deliver_client_append [OF tv ms2]
      have "\<exists>ms. timers (report_error env (as_Error e) ?v) = timers w @ map Deliver_client ms" .
      with x show ?thesis
        using \<open>clientMessageHandler w = Some h\<close>
        by (simp add: Deliver_client deliver_client_def Let_def exec_calls_log Some)
    qed
  qed
next
  case (Close_notify ho)
  show ?thesis
  proof (cases ho)
    case None
    then show ?thesis
      using assms by (simp add: Close_notify close_notify_def)
  next
    case (Some h)
    from exec_calls_unstarted [OF assms(1), of "fst (close_handler env h)"]
    show ?thesis
      by (auto simp: Close_notify Some close_notify_def Let_def exec_calls_log split: option.splits)
  qed
next
  case (Start_resume p)
  with assms show ?thesis by simp
qed

lemma run_task_closes:
  "filter is_close_event (trace (run_task env t w)) =
     filter is_close_event (trace w) @
       (case t of Close_notify (Some h) \<Rightarrow> [Client_close h] | _ \<Rightarrow> [])"
proof (cases t)
  case (Deliver_server p h m)
  show ?thesis
  proof (cases "snd (message_handler env h m)")
    case None
    then show ?thesis
      by (simp add: Deliver_server deliver_server_def Let_def exec_calls_log)
  next
    case (Some e)
    let ?v = "log (Server_message h m) (snd (exec_calls (fst (message_handler env h m)) w))"
    show ?thesis
      using invoke_onerror_closes [of env "as_Error e" ?v]
      by (cases "invoke_onerror env (as_Error e) ?v")
        (auto simp: Deliver_server deliver_server_def Let_def exec_calls_log Some split: option.splits)
  qed
next
  case (Deliver_client m)
  show ?thesis
  proof (cases "clientMessageHandler w")
    case None
    then show ?thesis
      by (simp add: Deliver_client deliver_client_def report_error_closes)
  next
    case (Some h)
    then show ?thesis
      by (simp add: Deliver_client deliver_client_def Let_def exec_calls_log report_error_closes
          split: option.splits)
  qed
next
  case (Close_notify ho)
  then show ?thesis
    by (simp add: close_notify_def Let_def exec_calls_log split: option.splits)
next
  case (Start_resume p)
  then show ?thesis
    by (simp add: start_resume_def Let_def)
qed


lemma tick_Cons: "timers w = t # ts \<Longrightarrow> tick env w = run_task env t (w\<lparr>timers := ts\<rparr>)"
  by (simp add: tick_def)

lemma tick_Nil: "timers w = [] \<Longrightarrow> tick env w = w"
  by (simp add: tick_def)

lemma apply_op_unstarted:
  assumes "\<not> started w" and "\<forall>t\<in>set (timers w). \<not> starts_bridge t" and "x \<noteq> Op_start"
  shows "\<not> started (apply_op env x w) \<and> (\<forall>t\<in>set (timers (apply_op env x w)). \<not> starts_bridge t)"
proof (cases x)
  case Op_start
  with assms show ?thesis by simp
next
  case (Op_call c)
  from exec_call_unstarted [OF assms(1), of c] assms(2) show ?thesis
    by (auto simp: Op_call)
next
  case Op_tick
  show ?thesis
  proof (cases "timers w")
    case Nil
    with assms show ?thesis by (simp add: Op_tick tick_Nil)
  next
    case (Cons t ts)
    have "\<not> started (w\<lparr>timers := ts\<rparr>)" and "\<not> starts_bridge t"
      using assms Cons by simp_all
    from run_task_unstarted [OF this, of env] assms(2) Cons show ?thesis
      by (auto simp: Op_tick tick_Cons [OF Cons])
  qed
qed

lemma run_ops_unstarted:
  "\<not> started w \<Longrightarrow> \<forall>t\<in>set (timers w). \<not> starts_bridge t \<Longrightarrow> Op_start \<notin> set ops \<Longrightarrow>
   \<not> started (run_ops env ops w) \<and> (\<forall>t\<in>set (timers (run_ops env ops w)). \<not> starts_bridge t)"
proof (induction ops arbitrary: w)
  case Nil
  then show ?case by simp
next
  case (Cons x xs)
  have "x \<noteq> Op_start" and "Op_start \<notin> set xs"
    using Cons.prems(3) by auto
  from apply_op_unstarted [OF Cons.prems(1,2) this(1), of env]
  have "\<not> started (apply_op env x w)"
    and "\<forall>t\<in>set (timers (apply_op env x w)). \<not> starts_bridge t"
    by simp_all
  from Cons.IH [OF this \<open>Op_start \<notin> set xs\<close>] show ?case by simp
qed

lemma quiet_phase:
  "\<not> started w \<Longrightarrow> timers w = map Deliver_client ms \<Longrightarrow> Op_start \<notin> set ops \<Longrightarrow>
   filter is_close_event (trace (run_ops env ops w)) = filter is_close_event (trace w)"
proof (induction ops arbitrary: w ms)
  case Nil
  then show ?case by simp
next
  case (Cons x xs)
  have xs: "Op_start \<notin> set xs" using Cons.prems(3) by simp
  show ?case
  proof (cases x)
    case Op_start
    with Cons.prems show ?thesis by simp
  next
    case (Op_call c)
    from exec_call_unstarted [OF Cons.prems(1), of c] obtain ms1 where
      u: "\<not> started (snd (exec_call c w))"
      and "timers (snd (exec_call c w)) = timers w @ map Deliver_client ms1"
      by blast
    then have "timers (snd (exec_call c w)) = map Deliver_client (ms @ ms1)"
      using Cons.prems(2) by simp
    from Cons.IH [OF u this xs] show ?thesis
      by (simp add: Op_call)
  next
    case Op_tick
    show ?thesis
    proof (cases ms)
      case Nil
      then have "tick env w = w" using Cons.prems(2) by (simp add: tick_Nil)
      with Cons.IH [OF Cons.prems(1,2) xs] show ?thesis
        by (simp add: Op_tick)
    next
      case (Cons m ms')
      let ?u = "w\<lparr>timers := map Deliver_client ms'\<rparr>"
      have t: "tick env w = run_task env (Deliver_client m) ?u"
        using Cons.prems(2) Cons by (simp add: tick_def)
      have "\<not> started ?u" using Cons.prems(1) by simp
      from run_task_unstarted [OF this, of "Deliver_client m" env] obtain ms1 where
        v: "\<not> started (run_task env (Deliver_client m) ?u)"
        and "timers (run_task env (Deliver_client m) ?u) = timers ?u @ map Deliver_client ms1"
        by auto
      then have q: "timers (run_task env (Deliver_client m) ?u) = map Deliver_client (ms' @ ms1)"
        by simp
      have "filter is_close_event (trace (run_task env (Deliver_client m) ?u))
          = filter is_close_event (trace w)"
        using run_task_closes [of env "Deliver_client m" ?u] by simp
      with Cons.IH [OF v q xs] show ?thesis
        by (simp add: Op_tick t)
    qed
  qed
qed

lemma run_task_no_close:
  assumes "\<not> notifies_close t"
  shows "filter is_close_event (trace (run_task env t w)) = filter is_close_event (trace w)"
proof -
  have "(case t of Close_notify None \<Rightarrow> [] | Close_notify (Some h) \<Rightarrow> [Client_close h]
         | _ \<Rightarrow> []) = []"
  proof (cases t)
    case (Close_notify ho)
    with assms show ?thesis by (cases ho) simp_all
  qed simp_all
  then show ?thesis
    using run_task_closes [of env t w] by simp
qed

lemma waiting_phase:
  "\<not> started w \<Longrightarrow>
   timers w = pre @ Close_notify (Some h) # map Deliver_client ms \<Longrightarrow>
   \<forall>t\<in>set pre. \<not> starts_bridge t \<and> \<not> notifies_close t \<Longrightarrow>
   Op_start \<notin> set ops \<Longrightarrow>
   filter is_close_event (trace (run_ops env ops w)) =
     filter is_close_event (trace w) @
       (if length pre < count_list ops Op_tick then [Client_close h] else [])"
proof (induction ops arbitrary: w pre ms)
  case Nil
  then show ?case by simp
next
  case (Cons x xs)
  have xs: "Op_start \<notin> set xs" using Cons.prems(4) by simp
  show ?case
  proof (cases x)
    case Op_start
    with Cons.prems show ?thesis by simp
  next
    case (Op_call c)
    from exec_call_unstarted [OF Cons.prems(1), of c] obtain ms1 where
      u: "\<not> started (snd (exec_call c w))"
      and "timers (snd (exec_call c w)) = timers w @ map Deliver_client ms1"
      by blast
    then have "timers (snd (exec_call c w))
        = pre @ Close_notify (Some h) # map Deliver_client (ms @ ms1)"
      using Cons.prems(2) by simp
    from Cons.IH [OF u this Cons.prems(3) xs] show ?thesis
      by (simp add: Op_call)
  next
    case Op_tick
    show ?thesis
    proof (cases pre)
      case Nil
      let ?u = "w\<lparr>timers := map Deliver_client ms\<rparr>"
      have t: "tick env w = run_task env (Close_notify (Some h)) ?u"
        using Cons.prems(2) Nil by (simp add: tick_def)
      have "\<not> started ?u" using Cons.prems(1) by simp
      from run_task_unstarted [OF this, of "Close_notify (Some h)" env] obtain ms1 where
        v: "\<not> started (run_task env (Close_notify (Some h)) ?u)"
        and "timers (run_task env (Close_notify (Some h)) ?u) = timers ?u @ map Deliver_client ms1"
        by auto
      then have q: "timers (run_task env (Close_notify (Some h)) ?u) = map Deliver_client (ms @ ms1)"
        by simp
      have "filter is_close_event (trace (run_task env (Close_notify (Some h)) ?u))
          = filter is_close_event (trace w) @ [Client_close h]"
        using run_task_closes [of env "Close_notify (Some h)" ?u] by simp
      with quiet_phase [OF v q xs, of env] show ?thesis
        by (simp add: Op_tick t Nil)
    next
      case (Cons t pre')
      let ?u = "w\<lparr>timers := pre' @ Close_notify (Some h) # map Deliver_client ms\<rparr>"
      have t: "tick env w = run_task env t ?u"
        using Cons.prems(2) Cons by (simp add: tick_def)
      have n: "\<not> starts_bridge t" "\<not> notifies_close t"
        and pre': "\<forall>t\<in>set pre'. \<not> starts_bridge t \<and> \<not> notifies_close t"
        using Cons.prems(3) Cons by simp_all
      have "\<not> started ?u" using Cons.prems(1) by simp
      from run_task_unstarted [OF this n(1), of env] obtain ms1 where
        v: "\<not> started (run_task env t ?u)"
        and "timers (run_task env t ?u) = timers ?u @ map Deliver_client ms1"
        by auto
      then have q: "timers (run_task env t ?u)
          = pre' @ Close_notify (Some h) # map Deliver_client (ms @ ms1)"
        by simp
      have "filter is_close_event (trace (run_task env t ?u)) = filter is_close_event (trace w)"
        using run_task_no_close [OF n(2), of env ?u] by simp
      with Cons.IH [OF v q pre' xs] show ?thesis
        by (simp add: Op_tick t Cons)
    qed
  qed
qed

subsection \<open>A failed connect, and what a delivery to the client cannot do\<close>




subsection \<open>When send is accepted\<close>

text \<open>
  Claim C3. \<^verbatim>\<open>send(m)\<close> rejects with NotStarted whenever the bridge is not started; on a
  started bridge it rejects with PeerUnavailable whenever the server's message handler is
  unset or the peer is marked disconnected; it is accepted (the promise is left pending
  on a deferred delivery) exactly when the bridge is started, the peer is connected and
  the server's handler is set. A rejected send changes nothing: no task is scheduled and
  no handler is notified. The two rejections are different errors.
\<close>

theorem send_precondition:
  "(\<not> started w \<longrightarrow> send m w = (Promise_rejected (Thrown_error NotStarted), w))
   \<and> (started w \<and> (serverMessageHandler w = None \<or> \<not> isServerConnected w)
        \<longrightarrow> send m w = (Promise_rejected (Thrown_error PeerUnavailable), w))
   \<and> ((\<exists>p. fst (send m w) = Promise_pending p)
        \<longleftrightarrow> started w \<and> isServerConnected w \<and> serverMessageHandler w \<noteq> None)
   \<and> (\<forall>e. fst (send m w) = Promise_rejected e \<longrightarrow> snd (send m w) = w)
   \<and> NotStarted \<noteq> PeerUnavailable"
  by (auto simp: send_def NotStarted_def PeerUnavailable_def split: option.splits)

theorem send_precondition_witness:
  "\<not> started (fresh 0)
   \<and> send echo_request (fresh 0) = (Promise_rejected (Thrown_error NotStarted), fresh 0)
   \<and> started (wired\<lparr>serverMessageHandler := None\<rparr>)
   \<and> send echo_request (wired\<lparr>serverMessageHandler := None\<rparr>)
       = (Promise_rejected (Thrown_error PeerUnavailable), wired\<lparr>serverMessageHandler := None\<rparr>)
   \<and> started wired \<and> isServerConnected wired \<and> serverMessageHandler wired \<noteq> None
   \<and> (\<exists>p. fst (send echo_request wired) = Promise_pending p)"
  using send_precondition [of "fresh 0" echo_request]
    send_precondition [of "wired\<lparr>serverMessageHandler := None\<rparr>" echo_request]
    send_precondition [of wired echo_request]
  by (simp add: fresh_def wired_def)

subsection \<open>Closing the proxy\<close>

text \<open>
  Claim C8. \<^verbatim>\<open>close()\<close> on the proxy only marks the peer disconnected. The started flag
  and the four handler slots stay as they were, no close notification is scheduled and
  none is delivered (timer queue and trace are unchanged). So the bridge's own close has
  not run: on a started bridge the result differs from what \<^verbatim>\<open>close()\<close> leaves, the
  bridge is still started, and a \<^verbatim>\<open>send\<close> is refused for the missing peer, not for a
  bridge that is not started.
\<close>

theorem proxy_close_does_not_cascade:
  "proxy_close w = (Promise_fulfilled, w\<lparr>isServerConnected := False\<rparr>)
   \<and> exec_call Proxy_close w = proxy_close w
   \<and> \<not> isServerConnected (snd (proxy_close w))
   \<and> started (snd (proxy_close w)) = started w
   \<and> clientMessageHandler (snd (proxy_close w)) = clientMessageHandler w
   \<and> clientErrorHandler (snd (proxy_close w)) = clientErrorHandler w
   \<and> clientCloseHandler (snd (proxy_close w)) = clientCloseHandler w
   \<and> serverMessageHandler (snd (proxy_close w)) = serverMessageHandler w
   \<and> timers (snd (proxy_close w)) = timers w
   \<and> trace (snd (proxy_close w)) = trace w
   \<and> (started w \<longrightarrow> snd (proxy_close w) \<noteq> snd (close w)
         \<and> fst (send m (snd (proxy_close w))) = Promise_rejected (Thrown_error PeerUnavailable))"
  by (auto simp: proxy_close_def exec_call_def close_def send_def Let_def
      dest: arg_cong [where f = started])

theorem proxy_close_does_not_cascade_witness:
  "started wired
   \<and> snd (proxy_close wired) = wired\<lparr>isServerConnected := False\<rparr>
   \<and> started (snd (proxy_close wired))
   \<and> clientCloseHandler (snd (proxy_close wired)) = Some 4
   \<and> timers (snd (proxy_close wired)) = []
   \<and> snd (proxy_close wired) \<noteq> snd (close wired)
   \<and> fst (send echo_request (snd (proxy_close wired))) = Promise_rejected (Thrown_error PeerUnavailable)"
proof -
  have h: "started wired" "clientCloseHandler wired = Some 4" "timers wired = []"
    by (simp_all add: wired_def)
  note T = proxy_close_does_not_cascade [where w = wired and m = echo_request]
  from T have a: "snd (proxy_close wired) = wired\<lparr>isServerConnected := False\<rparr>"
    by simp
  from T h have b: "started (snd (proxy_close wired))"
    "clientCloseHandler (snd (proxy_close wired)) = Some 4"
    "timers (snd (proxy_close wired)) = []"
    by simp_all
  from T h(1) have c: "snd (proxy_close wired) \<noteq> snd (close wired)"
    "fst (send echo_request (snd (proxy_close wired))) = Promise_rejected (Thrown_error PeerUnavailable)"
    by blast+
  show ?thesis using h(1) a b c by blast
qed

subsection \<open>A request and its answer\<close>

text \<open>
  First for any started bridge with the peer connected, an outward message handler
  registered and no timer pending.
\<close>

lemma round_trip_when_wired:
  assumes "started w" and "isServerConnected w"
    and "serverMessageHandler w = Some sh"
    and "clientMessageHandler w = Some ch"
    and "timers w = []"
    and "message_handler env sh m = ([Proxy_send r], None)"
  shows "fst (send m w) = Promise_pending (nextPromise w)
    \<and> timers (snd (send m w)) = [Deliver_server (nextPromise w) sh m]
    \<and> trace (tick env (snd (send m w))) = trace w @ [Server_message sh m, Send_fulfilled (nextPromise w)]
    \<and> timers (tick env (snd (send m w))) = [Deliver_client r]
    \<and> (\<forall>n\<ge>2. \<exists>rest. trace (run_loop env n (snd (send m w)))
           = trace w @ [Server_message sh m, Send_fulfilled (nextPromise w), Client_message ch r] @ rest)"
proof -
  let ?p = "nextPromise w"
  let ?w1 = "snd (send m w)"
  have s: "send m w = (Promise_pending ?p, w\<lparr>timers := [Deliver_server ?p sh m], nextPromise := Suc ?p\<rparr>)"
    using assms by (simp add: send_def)
  let ?w2 = "tick env ?w1"
  have t1: "?w2 = log (Send_fulfilled ?p) (log (Server_message sh m)
       (w\<lparr>timers := [Deliver_client r], nextPromise := Suc ?p\<rparr>))"
    using assms by (simp add: s tick_def deliver_server_def exec_call_def proxy_send_def log_def)
  have c2: "clientMessageHandler ?w2 = Some ch" and q2: "timers ?w2 = [Deliver_client r]"
    and tr2: "trace ?w2 = trace w @ [Server_message sh m, Send_fulfilled ?p]"
    using assms by (simp_all add: t1)
  have "\<exists>rest. trace (tick env ?w2) = trace ?w2 @ [Client_message ch r] @ rest"
    using deliver_client_trace [of "?w2\<lparr>timers := []\<rparr>" ch env r] c2 q2
    by (simp add: tick_def)
  then obtain r3 where r3: "trace (tick env ?w2) = trace ?w2 @ [Client_message ch r] @ r3"
    by blast
  have "\<exists>rest. trace (run_loop env n ?w1)
           = trace w @ [Server_message sh m, Send_fulfilled ?p, Client_message ch r] @ rest"
    if "n \<ge> 2" for n
  proof -
    from that obtain k where n: "n = 2 + k" using le_Suc_ex by blast
    have "run_loop env n ?w1 = run_loop env k (tick env ?w2)"
      by (simp add: n numeral_2_eq_2)
    moreover obtain r4 where "trace (run_loop env k (tick env ?w2)) = trace (tick env ?w2) @ r4"
      using run_loop_trace by blast
    ultimately show ?thesis using r3 tr2 by simp
  qed
  then show ?thesis using s q2 tr2 by simp
qed

lemma echo_answers_every_request:
  "''id'' \<in> set (map fst kvs) \<Longrightarrow> ''method'' \<in> set (map fst kvs) \<Longrightarrow>
   message_handler test_env 1 (JObj kvs) =
     ([Proxy_send (JObj [(''jsonrpc'', JStr ''2.0''), (''id'', get_prop ''id'' kvs),
                         (''result'', JObj [(''echoed'', get_prop ''params'' kvs)])])], None)"
  by (simp add: test_env_def)

lemma echo_refuses_non_objects:
  "message_handler test_env 1 (JStr x) = ([], Some (Thrown_error not_an_object))"
  "message_handler test_env 1 JNull = ([], Some (Thrown_error not_an_object))"
  "message_handler test_env 1 (JArr xs) = ([], None)"
  by (simp_all add: test_env_def)

lemma start_registers:
  assumes "\<not> started w" and "connect env (mcpServer w) = ([Proxy_set_onmessage (Some sh)], None)"
  shows "start env w =
    (Promise_fulfilled,
     w\<lparr>serverMessageHandler := Some sh, isServerConnected := True, started := True\<rparr>)"
  using assms by (simp add: start_def exec_call_def proxy_set_onmessage_def Let_def)

text \<open>
  Claim C1. Take a bridge that is not started, with an outward message handler
  registered and no timer pending, and a server whose connect operation registers a
  message handler that answers the request \<open>m\<close> by one call of the proxy's \<^verbatim>\<open>send\<close>
  with the response \<open>r\<close>. Then \<^verbatim>\<open>start()\<close> is fulfilled and \<^verbatim>\<open>send(m)\<close> is accepted
  without invoking anything; the first turn of the event loop hands \<open>m\<close> to the server's
  handler and fulfils the send promise; and after two or more turns the outward handler
  has received exactly \<open>r\<close>, after the promise was fulfilled. The witness is the echo
  scenario of the test suite.
\<close>

theorem round_trip_delivery:
  assumes "\<not> started w" and "timers w = []"
    and "clientMessageHandler w = Some ch"
    and "connect env (mcpServer w) = ([Proxy_set_onmessage (Some sh)], None)"
    and "message_handler env sh m = ([Proxy_send r], None)"
  shows "fst (start env w) = Promise_fulfilled
    \<and> fst (send m (snd (start env w))) = Promise_pending (nextPromise w)
    \<and> trace (snd (send m (snd (start env w)))) = trace w
    \<and> trace (tick env (snd (send m (snd (start env w)))))
        = trace w @ [Server_message sh m, Send_fulfilled (nextPromise w)]
    \<and> (\<forall>n\<ge>2. \<exists>rest. trace (run_loop env n (snd (send m (snd (start env w)))))
           = trace w @ [Server_message sh m, Send_fulfilled (nextPromise w),
                        Client_message ch r] @ rest)"
proof -
  let ?v = "w\<lparr>serverMessageHandler := Some sh, isServerConnected := True, started := True\<rparr>"
  have s: "start env w = (Promise_fulfilled, ?v)"
    using assms(1,4) by (rule start_registers)
  have v: "started ?v" "isServerConnected ?v" "serverMessageHandler ?v = Some sh"
    "clientMessageHandler ?v = Some ch" "timers ?v = []"
    using assms(2,3) by simp_all
  have "trace (snd (send m ?v)) = trace ?v"
    using v by (simp add: send_def)
  with round_trip_when_wired [OF v assms(5)] show ?thesis
    by (simp add: s)
qed

theorem round_trip_delivery_witness:
  "\<not> started (set_onmessage (Some 2) (fresh 0))
   \<and> timers (set_onmessage (Some 2) (fresh 0)) = []
   \<and> clientMessageHandler (set_onmessage (Some 2) (fresh 0)) = Some 2
   \<and> connect test_env (mcpServer (set_onmessage (Some 2) (fresh 0)))
       = ([Proxy_set_onmessage (Some 1)], None)
   \<and> message_handler test_env 1 echo_request = ([Proxy_send echo_response], None)
   \<and> fst (start test_env (set_onmessage (Some 2) (fresh 0))) = Promise_fulfilled
   \<and> fst (send echo_request (snd (start test_env (set_onmessage (Some 2) (fresh 0)))))
       = Promise_pending 0
   \<and> (\<exists>rest. trace (run_loop test_env 2
                  (snd (send echo_request (snd (start test_env (set_onmessage (Some 2) (fresh 0)))))))
         = [Server_message 1 echo_request, Send_fulfilled 0, Client_message 2 echo_response] @ rest)
   \<and> trace (run_loop test_env 2
              (snd (send echo_request (snd (start test_env (set_onmessage (Some 2) (fresh 0)))))))
         = [Server_message 1 echo_request, Send_fulfilled 0, Client_message 2 echo_response]"
proof -
  let ?w = "set_onmessage (Some 2) (fresh 0)"
  have h: "\<not> started ?w" "timers ?w = []" "clientMessageHandler ?w = Some 2"
    "connect test_env (mcpServer ?w) = ([Proxy_set_onmessage (Some 1)], None)"
    "message_handler test_env 1 echo_request = ([Proxy_send echo_response], None)"
    by (simp_all add: set_onmessage_def fresh_def test_env_def get_prop_def
        echo_request_def echo_response_def)
  have z: "trace ?w = []" "nextPromise ?w = 0"
    by (simp_all add: set_onmessage_def fresh_def)
  note T = round_trip_delivery [OF h]
  from T have a: "fst (start test_env ?w) = Promise_fulfilled"
    and b: "fst (send echo_request (snd (start test_env ?w))) = Promise_pending 0"
    unfolding z by blast+
  from T have "\<forall>n\<ge>2. \<exists>rest. trace (run_loop test_env n (snd (send echo_request (snd (start test_env ?w)))))
           = trace ?w @ [Server_message 1 echo_request, Send_fulfilled (nextPromise ?w),
                        Client_message 2 echo_response] @ rest"
    by blast
  then have c: "\<exists>rest. trace (run_loop test_env 2 (snd (send echo_request (snd (start test_env ?w)))))
           = [Server_message 1 echo_request, Send_fulfilled 0, Client_message 2 echo_response] @ rest"
    unfolding z by simp
  have d: "trace (run_loop test_env 2 (snd (send echo_request (snd (start test_env ?w)))))
         = [Server_message 1 echo_request, Send_fulfilled 0, Client_message 2 echo_response]"
    by (simp add: numeral_2_eq_2 set_onmessage_def fresh_def test_env_def get_prop_def
        echo_request_def echo_response_def start_def proxy_set_onmessage_def Let_def
        send_def tick_def deliver_server_def deliver_client_def exec_call_def proxy_send_def log_def)
  show ?thesis using h a b c d by blast
qed

subsection \<open>Teardown\<close>

text \<open>
  Claim C4 says that every \<^verbatim>\<open>send()\<close> issued after \<^verbatim>\<open>close()\<close> rejects with NotStarted
  and that a handler invoked during close observes cleared slots and cannot re-enter
  \<^verbatim>\<open>send()\<close>. Neither survives a second \<^verbatim>\<open>start()\<close>, which the code accepts: after start,
  close, start a \<^verbatim>\<open>send\<close> is accepted, and a close handler that sends, notified after
  such a restart, has its \<^verbatim>\<open>send\<close> accepted too. Nor do the slots stay cleared until the
  notification fires when a delivery was already queued at the \<^verbatim>\<open>close()\<close>: the handler
  it invokes (here handler 11) can assign all four slots again before the notification
  is taken from the queue.
\<close>

theorem send_after_close_counterexample:
  "fst (send echo_request (run_ops test_env [Op_start, Op_call Call_close, Op_start] (fresh 0)))
     = Promise_pending 0
   \<and> trace (run_ops test_env [Op_call (Set_onclose (Some 10)), Op_start, Op_call Call_close,
                               Op_start, Op_tick] (fresh 0)) = [Client_close 10]
   \<and> timers (run_ops test_env [Op_call (Set_onclose (Some 10)), Op_start, Op_call Call_close,
                                Op_start, Op_tick] (fresh 0)) = [Deliver_server 0 1 JNull]
   \<and> timers (run_ops test_env [Op_call (Call_send echo_request), Op_call Call_close, Op_tick]
               (wired\<lparr>serverMessageHandler := Some 11\<rparr>)) = [Close_notify (Some 4)]
   \<and> clientMessageHandler
        (run_ops test_env [Op_call (Call_send echo_request), Op_call Call_close, Op_tick]
           (wired\<lparr>serverMessageHandler := Some 11\<rparr>)) = Some 2
   \<and> clientErrorHandler
        (run_ops test_env [Op_call (Call_send echo_request), Op_call Call_close, Op_tick]
           (wired\<lparr>serverMessageHandler := Some 11\<rparr>)) = Some 3
   \<and> clientCloseHandler
        (run_ops test_env [Op_call (Call_send echo_request), Op_call Call_close, Op_tick]
           (wired\<lparr>serverMessageHandler := Some 11\<rparr>)) = Some 4
   \<and> serverMessageHandler
        (run_ops test_env [Op_call (Call_send echo_request), Op_call Call_close, Op_tick]
           (wired\<lparr>serverMessageHandler := Some 11\<rparr>)) = Some 1"
  by (simp add: run_defs)


text \<open>
  Claim C4, amended. \<^verbatim>\<open>close()\<close> on a started bridge returns with the four handler slots
  cleared, the bridge unstarted and the peer disconnected, while the close notification
  is still waiting in the timer queue (nothing has been invoked yet: the trace is
  unchanged); when the notification is the next task, the captured handler runs in
  exactly that cleared state. A \<^verbatim>\<open>send\<close> right after \<^verbatim>\<open>close()\<close> rejects with NotStarted.
  The same holds later, as long as no start intervenes (no \<^verbatim>\<open>start()\<close> call, none still
  waiting on its timer): after any calls and any turns of the event loop the bridge is
  unstarted, \<^verbatim>\<open>send\<close> rejects with NotStarted, and so does every \<^verbatim>\<open>send\<close> that a handler
  invoked in such a state makes, whatever else the handler calls before it.
\<close>

theorem close_teardown:
  assumes "started w"
  shows "serverMessageHandler (snd (close w)) = None
    \<and> clientMessageHandler (snd (close w)) = None
    \<and> clientErrorHandler (snd (close w)) = None
    \<and> clientCloseHandler (snd (close w)) = None
    \<and> \<not> started (snd (close w)) \<and> \<not> isServerConnected (snd (close w))
    \<and> timers (snd (close w)) = timers w @ [Close_notify (clientCloseHandler w)]
    \<and> trace (snd (close w)) = trace w
    \<and> send m (snd (close w)) = (Promise_rejected (Thrown_error NotStarted), snd (close w))
    \<and> (timers w = [] \<longrightarrow>
         tick env (snd (close w)) =
           run_task env (Close_notify (clientCloseHandler w))
             (w\<lparr>started := False, isServerConnected := False, serverMessageHandler := None,
                clientMessageHandler := None, clientErrorHandler := None,
                clientCloseHandler := None, timers := []\<rparr>))
    \<and> ((\<forall>t\<in>set (timers w). \<not> starts_bridge t) \<and> Op_start \<notin> set ops \<longrightarrow>
         \<not> started (run_ops env ops (snd (close w)))
         \<and> fst (send m (run_ops env ops (snd (close w)))) = Promise_rejected (Thrown_error NotStarted)
         \<and> (\<forall>cs i m' e ts. i < length cs \<and> cs ! i = Call_send m' \<longrightarrow>
               fst (exec_calls cs (log e ((run_ops env ops (snd (close w)))\<lparr>timers := ts\<rparr>))) ! i
                 = Promise_rejected (Thrown_error NotStarted)))"
proof -
  let ?u = "snd (close w)"
  have basic: "serverMessageHandler ?u = None" "clientMessageHandler ?u = None"
    "clientErrorHandler ?u = None" "clientCloseHandler ?u = None"
    "\<not> started ?u" "\<not> isServerConnected ?u"
    "timers ?u = timers w @ [Close_notify (clientCloseHandler w)]" "trace ?u = trace w"
    using assms by (simp_all add: close_def Let_def)
  have s: "send m ?u = (Promise_rejected (Thrown_error NotStarted), ?u)"
    using basic(5) by (simp add: send_def)
  have t: "timers w = [] \<longrightarrow>
         tick env ?u =
           run_task env (Close_notify (clientCloseHandler w))
             (w\<lparr>started := False, isServerConnected := False, serverMessageHandler := None,
                clientMessageHandler := None, clientErrorHandler := None,
                clientCloseHandler := None, timers := []\<rparr>)"
    using assms by (simp add: close_def Let_def tick_def)
  have later: "\<not> started (run_ops env ops ?u)
         \<and> fst (send m (run_ops env ops ?u)) = Promise_rejected (Thrown_error NotStarted)
         \<and> (\<forall>cs i m' e ts. i < length cs \<and> cs ! i = Call_send m' \<longrightarrow>
               fst (exec_calls cs (log e ((run_ops env ops ?u)\<lparr>timers := ts\<rparr>))) ! i
                 = Promise_rejected (Thrown_error NotStarted))"
    if q: "\<forall>t\<in>set (timers w). \<not> starts_bridge t" and o: "Op_start \<notin> set ops"
  proof -
    have "\<forall>t\<in>set (timers ?u). \<not> starts_bridge t"
      using q basic(7) by simp
    from run_ops_unstarted [OF basic(5) this o, of env]
    have n: "\<not> started (run_ops env ops ?u)" by simp
    then have "\<not> started (log e ((run_ops env ops ?u)\<lparr>timers := ts\<rparr>))" for e ts
      by simp
    from exec_calls_unstarted_sends [OF this] n show ?thesis
      by (simp add: send_def)
  qed
  show ?thesis
    using basic s t later by blast
qed



theorem close_teardown_witness:
  "started wired_reentrant
   \<and> clientMessageHandler (snd (close wired_reentrant)) = None
   \<and> timers (snd (close wired_reentrant)) = [Close_notify (Some 9)]
   \<and> timers wired_reentrant = []
   \<and> tick test_env (snd (close wired_reentrant)) =
        run_task test_env (Close_notify (Some 9))
          (wired_reentrant\<lparr>started := False, isServerConnected := False,
             serverMessageHandler := None, clientMessageHandler := None,
             clientErrorHandler := None, clientCloseHandler := None, timers := []\<rparr>)
   \<and> fst (send echo_request (run_ops test_env [Op_tick] (snd (close wired_reentrant))))
       = Promise_rejected (Thrown_error NotStarted)
   \<and> fst (exec_calls [Call_close, Call_send JNull]
        (log (Client_close 9) ((run_ops test_env [] (snd (close wired_reentrant)))\<lparr>timers := []\<rparr>))) ! 1
       = Promise_rejected (Thrown_error NotStarted)"
proof -
  let ?w = "wired_reentrant"
  have h: "started ?w" by (simp add: wired_reentrant_def wired_def)
  have q: "(\<forall>t\<in>set (timers ?w). \<not> starts_bridge t) \<and> Op_start \<notin> set [Op_tick]"
    and q': "(\<forall>t\<in>set (timers ?w). \<not> starts_bridge t) \<and> Op_start \<notin> set []"
    and tw: "timers ?w = []" and cw: "clientCloseHandler ?w = Some 9"
    by (simp_all add: wired_reentrant_def wired_def)
  note T1 = close_teardown [OF h, where m = echo_request and env = test_env and ops = "[Op_tick]"]
  note T2 = close_teardown [OF h, where m = echo_request and env = test_env and ops = "[]"]
  from T1 have a: "clientMessageHandler (snd (close ?w)) = None"
    by blast
  from T1 have "timers (snd (close ?w)) = timers ?w @ [Close_notify (clientCloseHandler ?w)]"
    by blast
  then have b: "timers (snd (close ?w)) = [Close_notify (Some 9)]"
    by (simp add: tw cw)
  from T1 tw have "tick test_env (snd (close ?w)) =
           run_task test_env (Close_notify (clientCloseHandler ?w))
             (?w\<lparr>started := False, isServerConnected := False, serverMessageHandler := None,
                clientMessageHandler := None, clientErrorHandler := None,
                clientCloseHandler := None, timers := []\<rparr>)"
    by blast
  then have k: "tick test_env (snd (close ?w)) =
           run_task test_env (Close_notify (Some 9))
             (?w\<lparr>started := False, isServerConnected := False, serverMessageHandler := None,
                clientMessageHandler := None, clientErrorHandler := None,
                clientCloseHandler := None, timers := []\<rparr>)"
    unfolding cw .
  from T1 q have c: "fst (send echo_request (run_ops test_env [Op_tick] (snd (close ?w))))
       = Promise_rejected (Thrown_error NotStarted)"
    by blast
  from T2 q' have "\<forall>cs i m' e ts. i < length cs \<and> cs ! i = Call_send m' \<longrightarrow>
               fst (exec_calls cs (log e ((run_ops test_env [] (snd (close ?w)))\<lparr>timers := ts\<rparr>))) ! i
                 = Promise_rejected (Thrown_error NotStarted)"
    by blast
  then have "1 < length [Call_close, Call_send JNull] \<and> [Call_close, Call_send JNull] ! 1 = Call_send JNull \<longrightarrow>
        fst (exec_calls [Call_close, Call_send JNull]
        (log (Client_close 9) ((run_ops test_env [] (snd (close ?w)))\<lparr>timers := []\<rparr>))) ! 1
       = Promise_rejected (Thrown_error NotStarted)"
    by blast
  then have d: "fst (exec_calls [Call_close, Call_send JNull]
        (log (Client_close 9) ((run_ops test_env [] (snd (close ?w)))\<lparr>timers := []\<rparr>))) ! 1
       = Promise_rejected (Thrown_error NotStarted)"
    by simp
  show ?thesis using h tw a b k c d by blast
qed

subsection \<open>The close handler\<close>

text \<open>
  Claim C9 says that the registered close handler is invoked exactly once however often
  \<^verbatim>\<open>close()\<close> is called. Since a closed bridge can be started again, this holds per
  started session only: close, a turn of the event loop, start, registering handler 4
  again, close, a turn of the event loop invokes handler 4 twice.
\<close>

theorem close_handler_once_counterexample:
  "started wired \<and> clientCloseHandler wired = Some 4
   \<and> filter is_close_event
        (trace (run_ops test_env
           [Op_call Call_close, Op_tick, Op_start, Op_call (Set_onclose (Some 4)),
            Op_call Call_close, Op_tick] wired))
     = [Client_close 4, Client_close 4]"
  by (simp add: run_defs)


text \<open>
  Claim C9, amended. Let a started bridge have the close handler \<open>h\<close> registered, with no
  other close notification and no unfinished start waiting in the timer queue, and let
  \<^verbatim>\<open>close()\<close> be followed by any operations other than a start: further \<^verbatim>\<open>close()\<close>
  calls, other calls, turns of the event loop, in any order and number. Then the trace
  gains no close-handler invocation until the event loop has worked off the tasks that
  were queued before the \<^verbatim>\<open>close()\<close>, and exactly one, of \<open>h\<close>, once it has taken one
  turn more. \<^verbatim>\<open>close()\<close> itself invokes nothing and its promise is fulfilled on return;
  on a bridge that is not started it changes nothing at all.
\<close>

theorem close_handler_once:
  "(started w \<and> clientCloseHandler w = Some h
      \<and> (\<forall>t\<in>set (timers w). \<not> starts_bridge t \<and> \<not> notifies_close t)
      \<and> Op_start \<notin> set ops \<longrightarrow>
      filter is_close_event (trace (run_ops env (Op_call Call_close # ops) w)) =
        filter is_close_event (trace w) @
          (if length (timers w) < count_list ops Op_tick then [Client_close h] else []))
   \<and> (\<not> started w \<longrightarrow> close w = (Promise_fulfilled, w))
   \<and> fst (close w) = Promise_fulfilled
   \<and> trace (snd (close w)) = trace w"
proof -
  have "filter is_close_event (trace (run_ops env (Op_call Call_close # ops) w)) =
        filter is_close_event (trace w) @
          (if length (timers w) < count_list ops Op_tick then [Client_close h] else [])"
    if a: "started w" "clientCloseHandler w = Some h"
      "\<forall>t\<in>set (timers w). \<not> starts_bridge t \<and> \<not> notifies_close t" "Op_start \<notin> set ops"
  proof -
    let ?u = "snd (close w)"
    have "\<not> started ?u"
      and "timers ?u = timers w @ Close_notify (Some h) # map Deliver_client []"
      and "trace ?u = trace w"
      using a by (simp_all add: close_def Let_def)
    from waiting_phase [OF this(1,2) a(3,4), of env] this(3) show ?thesis
      by (simp add: exec_call_def)
  qed
  moreover have "\<not> started w \<longrightarrow> close w = (Promise_fulfilled, w)"
    by (simp add: close_def)
  moreover have "fst (close w) = Promise_fulfilled" "trace (snd (close w)) = trace w"
    by (simp_all add: close_def Let_def)
  ultimately show ?thesis by blast
qed

theorem close_handler_once_witness:
  "started wired_reentrant
   \<and> clientCloseHandler wired_reentrant = Some 9
   \<and> timers wired_reentrant = []
   \<and> filter is_close_event
        (trace (run_ops test_env
           [Op_call Call_close, Op_call Call_close, Op_tick, Op_call Call_close, Op_tick]
           wired_reentrant)) = [Client_close 9]
   \<and> filter is_close_event
        (trace (run_ops test_env [Op_call Call_close, Op_call Call_close] wired_reentrant)) = []
   \<and> filter is_close_event
        (trace (run_ops test_env [Op_call Call_close, Op_tick, Op_call Call_close, Op_tick]
           (wired_reentrant\<lparr>timers := [Deliver_client echo_response]\<rparr>))) = [Client_close 9]
   \<and> \<not> started (fresh 0) \<and> close (fresh 0) = (Promise_fulfilled, fresh 0)"
proof -
  let ?w = "wired_reentrant"
  have h: "started ?w" "clientCloseHandler ?w = Some 9"
    "\<forall>t\<in>set (timers ?w). \<not> starts_bridge t \<and> \<not> notifies_close t"
    and t: "trace ?w = []" and q: "timers ?w = []"
    by (simp_all add: wired_reentrant_def wired_def)
  have o1: "Op_start \<notin> set [Op_call Call_close, Op_tick, Op_call Call_close, Op_tick]"
    and o2: "Op_start \<notin> set [Op_call Call_close]"
    and i1: "length (timers ?w) < count_list [Op_call Call_close, Op_tick, Op_call Call_close, Op_tick] Op_tick"
    and i2: "\<not> length (timers ?w) < count_list [Op_call Call_close] Op_tick"
    by (simp_all add: q)
  from close_handler_once [where w = ?w and h = 9 and env = test_env
      and ops = "[Op_call Call_close, Op_tick, Op_call Call_close, Op_tick]"] h o1
  have "filter is_close_event
        (trace (run_ops test_env
           (Op_call Call_close # [Op_call Call_close, Op_tick, Op_call Call_close, Op_tick]) ?w))
      = filter is_close_event (trace ?w)
        @ (if length (timers ?w) < count_list [Op_call Call_close, Op_tick, Op_call Call_close, Op_tick] Op_tick
           then [Client_close 9] else [])"
    by blast
  then have a: "filter is_close_event
        (trace (run_ops test_env
           [Op_call Call_close, Op_call Call_close, Op_tick, Op_call Call_close, Op_tick] ?w))
      = [Client_close 9]"
    unfolding t using i1 by simp
  from close_handler_once [where w = ?w and h = 9 and env = test_env
      and ops = "[Op_call Call_close]"] h o2
  have "filter is_close_event
        (trace (run_ops test_env (Op_call Call_close # [Op_call Call_close]) ?w))
      = filter is_close_event (trace ?w)
        @ (if length (timers ?w) < count_list [Op_call Call_close] Op_tick then [Client_close 9] else [])"
    by blast
  then have b: "filter is_close_event
        (trace (run_ops test_env [Op_call Call_close, Op_call Call_close] ?w)) = []"
    unfolding t using i2 by simp
  let ?v = "wired_reentrant\<lparr>timers := [Deliver_client echo_response]\<rparr>"
  have hv: "started ?v" "clientCloseHandler ?v = Some 9"
    "\<forall>t\<in>set (timers ?v). \<not> starts_bridge t \<and> \<not> notifies_close t"
    "Op_start \<notin> set [Op_tick, Op_call Call_close, Op_tick]"
    and tv: "trace ?v = []"
    and iv: "length (timers ?v) < count_list [Op_tick, Op_call Call_close, Op_tick] Op_tick"
    by (simp_all add: wired_reentrant_def wired_def)
  from close_handler_once [where w = ?v and h = 9 and env = test_env
      and ops = "[Op_tick, Op_call Call_close, Op_tick]"] hv
  have "filter is_close_event
        (trace (run_ops test_env (Op_call Call_close # [Op_tick, Op_call Call_close, Op_tick]) ?v))
      = filter is_close_event (trace ?v)
        @ (if length (timers ?v) < count_list [Op_tick, Op_call Call_close, Op_tick] Op_tick
           then [Client_close 9] else [])"
    by blast
  then have b': "filter is_close_event
        (trace (run_ops test_env [Op_call Call_close, Op_tick, Op_call Call_close, Op_tick] ?v))
      = [Client_close 9]"
    unfolding tv using iv by simp
  have n: "\<not> started (fresh 0)" by (simp add: fresh_def)
  from close_handler_once [where w = "fresh 0"] n
  have c: "close (fresh 0) = (Promise_fulfilled, fresh 0)"
    by blast
  show ?thesis using h(1,2) q a b b' n c by blast
qed

subsection \<open>Starting again after close\<close>

text \<open>
  Claim C2 says that a closed bridge can never be started again. The code keeps no record
  of having been closed: \<^verbatim>\<open>close()\<close> resets \<^verbatim>\<open>_started\<close> to false, which is all that
  \<^verbatim>\<open>start()\<close> tests. With the mock server of the test suite, start, close, start leaves
  the instance started.
\<close>

theorem close_is_terminal_counterexample:
  "started (run_ops test_env [Op_start] (fresh 0))
   \<and> \<not> started (run_ops test_env [Op_start, Op_call Call_close] (fresh 0))
   \<and> started (run_ops test_env [Op_start, Op_call Call_close, Op_start] (fresh 0))"
  by (simp add: test_env_def fresh_def start_def exec_call_def close_def
      proxy_set_onmessage_def Let_def)

text \<open>
  Claim C2, amended. \<^verbatim>\<open>close()\<close> on a started bridge leaves it unstarted with the four
  handler slots cleared, and it is not terminal: a \<^verbatim>\<open>start()\<close> on the same instance then
  runs the server's connect operation again, and when that succeeds and has registered a
  message handler, \<^verbatim>\<open>start()\<close> fulfils and the instance is started again (its outward
  handlers have to be registered anew).
\<close>

theorem close_then_restart:
  assumes "started w"
    and "connect env (mcpServer w) = (cs, None)"
    and "serverMessageHandler (snd (exec_calls cs (snd (close w)))) \<noteq> None"
  shows "\<not> started (snd (close w))
    \<and> serverMessageHandler (snd (close w)) = None
    \<and> clientMessageHandler (snd (close w)) = None
    \<and> clientErrorHandler (snd (close w)) = None
    \<and> clientCloseHandler (snd (close w)) = None
    \<and> start env (snd (close w))
        = (Promise_fulfilled, (snd (exec_calls cs (snd (close w))))\<lparr>started := True\<rparr>)
    \<and> started (run_ops env [Op_call Call_close, Op_start] w)"
proof -
  have m: "mcpServer (snd (close w)) = mcpServer w"
    by (simp add: close_def Let_def)
  have c: "\<not> started (snd (close w))" "serverMessageHandler (snd (close w)) = None"
    "clientMessageHandler (snd (close w)) = None" "clientErrorHandler (snd (close w)) = None"
    "clientCloseHandler (snd (close w)) = None"
    using assms(1) by (simp_all add: close_def Let_def)
  have s: "start env (snd (close w))
        = (Promise_fulfilled, (snd (exec_calls cs (snd (close w))))\<lparr>started := True\<rparr>)"
    using c(1) assms(2,3) by (simp add: start_def m Let_def)
  then have "started (run_ops env [Op_call Call_close, Op_start] w)"
    by (simp add: exec_call_def)
  with c s show ?thesis by blast
qed

theorem close_then_restart_witness:
  "started wired
   \<and> connect test_env (mcpServer wired) = ([Proxy_set_onmessage (Some 1)], None)
   \<and> serverMessageHandler (snd (exec_calls [Proxy_set_onmessage (Some 1)] (snd (close wired)))) \<noteq> None
   \<and> \<not> started (snd (close wired))
   \<and> clientMessageHandler (snd (close wired)) = None
   \<and> fst (start test_env (snd (close wired))) = Promise_fulfilled
   \<and> started (run_ops test_env [Op_call Call_close, Op_start] wired)"
proof -
  have h: "started wired"
    "connect test_env (mcpServer wired) = ([Proxy_set_onmessage (Some 1)], None)"
    "serverMessageHandler (snd (exec_calls [Proxy_set_onmessage (Some 1)] (snd (close wired)))) \<noteq> None"
    by (simp_all add: wired_def test_env_def close_def exec_call_def proxy_set_onmessage_def Let_def)
  from close_then_restart [OF h] h show ?thesis by simp
qed

subsection \<open>A start whose connect fails\<close>







subsection \<open>Delivery to the server\<close>

text \<open>
  Claim C6 says that the send promise rejects whenever the server's handler raises. The
  call of the outward error handler stands unguarded before the rejection: when that
  handler throws (handler 8), its exception escapes the timer callback, the promise is
  neither rejected nor fulfilled, and no task is left that could settle it.
\<close>

theorem send_delivery_outcome_counterexample:
  "fst (send echo_request (wired_failing\<lparr>clientErrorHandler := Some 8\<rparr>)) = Promise_pending 0
   \<and> trace (run_loop test_env 3
              (snd (send echo_request (wired_failing\<lparr>clientErrorHandler := Some 8\<rparr>))))
     = [Server_message 5 echo_request, Client_error 8 (Error ''server fail''),
        Uncaught (Thrown_error (Error ''handler fail''))]
   \<and> timers (run_loop test_env 3
               (snd (send echo_request (wired_failing\<lparr>clientErrorHandler := Some 8\<rparr>)))) = []"
  by (simp add: numeral_3_eq_3 test_env_def wired_def wired_failing_def
      call_defs tick_def deliver_server_def invoke_onerror_def log_def Let_def)


text \<open>
  Claim C6, amended. An accepted \<^verbatim>\<open>send(m)\<close> invokes nothing itself: it queues one
  delivery, which holds the server's handler as it was at the call. Whenever that
  delivery runs it first invokes this handler with \<open>m\<close>. If the handler returns, the send
  promise is fulfilled. If it raises \<open>t\<close>, the error \<^verbatim>\<open>as_Error t\<close> (which is \<open>t\<close> itself
  for an \<^verbatim>\<open>Error\<close> instance) is passed to the outward error handler registered at that
  moment, if any, and the promise is rejected with that same error, unless the error
  handler itself throws: then the delivery ends with that exception uncaught and settles
  nothing.
\<close>

theorem send_delivery_outcome:
  assumes "fst (send m w) = Promise_pending p"
  shows "\<exists>h. serverMessageHandler w = Some h
    \<and> timers (snd (send m w)) = timers w @ [Deliver_server p h m]
    \<and> trace (snd (send m w)) = trace w
    \<and> (\<forall>u. \<exists>rest. trace (run_task env (Deliver_server p h m) u)
                      = trace u @ [Server_message h m] @ rest)
    \<and> (\<forall>u. snd (message_handler env h m) = None \<longrightarrow>
           trace (run_task env (Deliver_server p h m) u)
             = trace u @ [Server_message h m, Send_fulfilled p])
    \<and> (\<forall>u t. snd (message_handler env h m) = Some t
             \<and> clientErrorHandler (snd (exec_calls (fst (message_handler env h m)) u)) = None \<longrightarrow>
           trace (run_task env (Deliver_server p h m) u)
             = trace u @ [Server_message h m, Send_rejected p (as_Error t)])
    \<and> (\<forall>u t eh. snd (message_handler env h m) = Some t
             \<and> clientErrorHandler (snd (exec_calls (fst (message_handler env h m)) u)) = Some eh
             \<and> snd (error_handler env eh (as_Error t)) = None \<longrightarrow>
           trace (run_task env (Deliver_server p h m) u)
             = trace u @ [Server_message h m, Client_error eh (as_Error t),
                          Send_rejected p (as_Error t)])
    \<and> (\<forall>u t eh t'. snd (message_handler env h m) = Some t
             \<and> clientErrorHandler (snd (exec_calls (fst (message_handler env h m)) u)) = Some eh
             \<and> snd (error_handler env eh (as_Error t)) = Some t' \<longrightarrow>
           trace (run_task env (Deliver_server p h m) u)
             = trace u @ [Server_message h m, Client_error eh (as_Error t), Uncaught t'])
    \<and> (\<forall>e. as_Error (Thrown_error e) = e)"
proof -
  from assms obtain h where h: "serverMessageHandler w = Some h"
    and st: "started w" "isServerConnected w" and p: "p = nextPromise w"
    by (auto simp: send_def split: if_splits option.splits)
  have q: "timers (snd (send m w)) = timers w @ [Deliver_server p h m]"
    and tr: "trace (snd (send m w)) = trace w"
    using h st p by (simp_all add: send_def)
  have a: "\<exists>rest. trace (run_task env (Deliver_server p h m) u)
                      = trace u @ [Server_message h m] @ rest" for u
  proof (cases "snd (message_handler env h m)")
    case None
    from deliver_server_returns [OF this, of p u] show ?thesis by simp
  next
    case (Some t)
    show ?thesis
    proof (cases "clientErrorHandler (snd (exec_calls (fst (message_handler env h m)) u))")
      case None
      from deliver_server_raises_unobserved [OF Some this, of p] show ?thesis by simp
    next
      case (Some eh)
      from deliver_server_raises_observed [OF \<open>snd (message_handler env h m) = Some t\<close> this, of p]
      show ?thesis by simp
    qed
  qed
  have b: "trace (run_task env (Deliver_server p h m) u)
             = trace u @ [Server_message h m, Send_fulfilled p]"
    if "snd (message_handler env h m) = None" for u
    using deliver_server_returns [OF that, of p u] by simp
  have c: "trace (run_task env (Deliver_server p h m) u)
             = trace u @ [Server_message h m, Send_rejected p (as_Error t)]"
    if "snd (message_handler env h m) = Some t"
      and "clientErrorHandler (snd (exec_calls (fst (message_handler env h m)) u)) = None" for u t
    using deliver_server_raises_unobserved [OF that, of p] by simp
  have d: "trace (run_task env (Deliver_server p h m) u)
             = trace u @ [Server_message h m, Client_error eh (as_Error t),
                          Send_rejected p (as_Error t)]"
    if "snd (message_handler env h m) = Some t"
      and "clientErrorHandler (snd (exec_calls (fst (message_handler env h m)) u)) = Some eh"
      and "snd (error_handler env eh (as_Error t)) = None" for u t eh
    using deliver_server_raises_observed [OF that(1,2), of p] that(3) by simp
  have e: "trace (run_task env (Deliver_server p h m) u)
             = trace u @ [Server_message h m, Client_error eh (as_Error t), Uncaught t']"
    if "snd (message_handler env h m) = Some t"
      and "clientErrorHandler (snd (exec_calls (fst (message_handler env h m)) u)) = Some eh"
      and "snd (error_handler env eh (as_Error t)) = Some t'" for u t eh t'
    using deliver_server_raises_observed [OF that(1,2), of p] that(3) by simp
  show ?thesis
    using h q tr a b c d e by auto
qed


theorem send_delivery_outcome_witness:
  "fst (send echo_request wired_failing) = Promise_pending 0
   \<and> timers (snd (send echo_request wired_failing)) = [Deliver_server 0 5 echo_request]
   \<and> trace (tick test_env (snd (send echo_request wired_failing)))
       = [Server_message 5 echo_request, Client_error 3 (Error ''server fail''),
          Send_rejected 0 (Error ''server fail'')]
   \<and> trace (run_task test_env (Deliver_server 0 5 echo_request)
              (wired_failing\<lparr>clientErrorHandler := None\<rparr>))
       = [Server_message 5 echo_request, Send_rejected 0 (Error ''server fail'')]
   \<and> trace (run_task test_env (Deliver_server 0 5 echo_request)
              (wired_failing\<lparr>clientErrorHandler := Some 8\<rparr>))
       = [Server_message 5 echo_request, Client_error 8 (Error ''server fail''),
          Uncaught (Thrown_error (Error ''handler fail''))]
   \<and> fst (send echo_request wired) = Promise_pending 0
   \<and> trace (tick test_env (snd (send echo_request wired)))
       = [Server_message 1 echo_request, Send_fulfilled 0]"
proof -
  let ?u = "(snd (send echo_request wired_failing))\<lparr>timers := []\<rparr>"
  let ?v = "(snd (send echo_request wired))\<lparr>timers := []\<rparr>"
  let ?n = "wired_failing\<lparr>clientErrorHandler := None\<rparr>"
  have f: "fst (send echo_request wired_failing) = Promise_pending 0"
    and g: "fst (send echo_request wired) = Promise_pending 0"
    by (simp_all add: send_def wired_failing_def wired_def)
  have facts: "serverMessageHandler wired_failing = Some 5" "timers wired_failing = []"
    "snd (message_handler test_env 5 echo_request) = Some (Thrown_error (Error ''server fail''))"
    "clientErrorHandler (snd (exec_calls (fst (message_handler test_env 5 echo_request)) ?u)) = Some 3"
    "clientErrorHandler (snd (exec_calls (fst (message_handler test_env 5 echo_request)) ?n)) = None"
    "snd (error_handler test_env 3 (as_Error (Thrown_error (Error ''server fail'')))) = None"
    "trace ?u = []" "trace ?n = []"
    by (simp_all add: send_def wired_failing_def wired_def test_env_def)
  have facts': "serverMessageHandler wired = Some 1" "timers wired = []" "trace ?v = []"
    "snd (message_handler test_env 1 echo_request) = None"
    by (simp_all add: send_def wired_def test_env_def echo_request_def)
  from send_delivery_outcome [OF f, where env = test_env] facts(1,2)
  have a: "timers (snd (send echo_request wired_failing)) = [Deliver_server 0 5 echo_request]"
    by fastforce
  from send_delivery_outcome [OF f, where env = test_env] facts(1,3,4,6,7)
  have "trace (run_task test_env (Deliver_server 0 5 echo_request) ?u)
       = [Server_message 5 echo_request, Client_error 3 (Error ''server fail''),
          Send_rejected 0 (Error ''server fail'')]"
    by fastforce
  then have b: "trace (tick test_env (snd (send echo_request wired_failing)))
       = [Server_message 5 echo_request, Client_error 3 (Error ''server fail''),
          Send_rejected 0 (Error ''server fail'')]"
    using a by (simp add: tick_def)
  from send_delivery_outcome [OF f, where env = test_env] facts(1,3,5,8)
  have c: "trace (run_task test_env (Deliver_server 0 5 echo_request) ?n)
       = [Server_message 5 echo_request, Send_rejected 0 (Error ''server fail'')]"
    by fastforce
  from send_delivery_outcome [OF g, where env = test_env] facts'(1,2)
  have d: "timers (snd (send echo_request wired)) = [Deliver_server 0 1 echo_request]"
    by fastforce
  from send_delivery_outcome [OF g, where env = test_env] facts'
  have "trace (run_task test_env (Deliver_server 0 1 echo_request) ?v)
       = [Server_message 1 echo_request, Send_fulfilled 0]"
    by fastforce
  then have e: "trace (tick test_env (snd (send echo_request wired)))
       = [Server_message 1 echo_request, Send_fulfilled 0]"
    using d by (simp add: tick_def)
  let ?x = "wired_failing\<lparr>clientErrorHandler := Some 8\<rparr>"
  have factsx:
    "clientErrorHandler (snd (exec_calls (fst (message_handler test_env 5 echo_request)) ?x)) = Some 8"
    "snd (error_handler test_env 8 (as_Error (Thrown_error (Error ''server fail''))))
       = Some (Thrown_error (Error ''handler fail''))"
    "trace ?x = []"
    by (simp_all add: wired_failing_def wired_def test_env_def)
  from send_delivery_outcome [OF f, where env = test_env] facts(1,3) factsx
  have x: "trace (run_task test_env (Deliver_server 0 5 echo_request) ?x)
       = [Server_message 5 echo_request, Client_error 8 (Error ''server fail''),
          Uncaught (Thrown_error (Error ''handler fail''))]"
    by fastforce
  show ?thesis using f g a b c e x by blast
qed

subsection \<open>Delivery to the client\<close>



subsection \<open>Thrown values that are not errors\<close>

text \<open>
  Claim C10. In both directions the value handed to the outward error handler when the
  invoked message handler raises \<open>t\<close> is \<^verbatim>\<open>as_Error t\<close>, and towards the server the send
  promise is rejected with that value too (with or without an error handler registered).
  For a thrown primitive \<open>v\<close> this is a new \<^verbatim>\<open>Error\<close> whose message is \<^verbatim>\<open>String(v)\<close>; for a
  thrown \<^verbatim>\<open>Error\<close> instance it is that instance.
\<close>

theorem error_normalisation:
  "(snd (message_handler env h m) = Some t
      \<and> clientErrorHandler (snd (exec_calls (fst (message_handler env h m)) u)) = Some eh \<longrightarrow>
    trace (run_task env (Deliver_server p h m) u)
      = trace u @ [Server_message h m, Client_error eh (as_Error t)] @
          (case snd (error_handler env eh (as_Error t)) of
             None \<Rightarrow> [Send_rejected p (as_Error t)]
           | Some t' \<Rightarrow> [Uncaught t']))
   \<and> (snd (message_handler env h m) = Some t
      \<and> clientErrorHandler (snd (exec_calls (fst (message_handler env h m)) u)) = None \<longrightarrow>
    trace (run_task env (Deliver_server p h m) u)
      = trace u @ [Server_message h m, Send_rejected p (as_Error t)])
   \<and> (clientMessageHandler u = Some h \<and> snd (message_handler env h m) = Some t
      \<and> clientErrorHandler (snd (exec_calls (fst (message_handler env h m)) u)) = Some eh \<longrightarrow>
    trace (run_task env (Deliver_client m) u)
      = trace u @ [Client_message h m, Client_error eh (as_Error t)] @
          (case snd (error_handler env eh (as_Error t)) of
             None \<Rightarrow> []
           | Some t' \<Rightarrow> [Uncaught t']))
   \<and> as_Error (Thrown_primitive v) = Error (String v)
   \<and> as_Error (Thrown_error e) = e
   \<and> String (PString s) = s \<and> String PUndefined = ''undefined'' \<and> String PNull = ''null''
   \<and> String (PBool True) = ''true'' \<and> String (PBool False) = ''false''"
proof -
  have a: "trace (run_task env (Deliver_server p h m) u)
      = trace u @ [Server_message h m, Client_error eh (as_Error t)] @
          (case snd (error_handler env eh (as_Error t)) of
             None \<Rightarrow> [Send_rejected p (as_Error t)]
           | Some t' \<Rightarrow> [Uncaught t'])"
    if "snd (message_handler env h m) = Some t"
      "clientErrorHandler (snd (exec_calls (fst (message_handler env h m)) u)) = Some eh"
    using deliver_server_raises_observed [OF that, of p] by simp
  have b: "trace (run_task env (Deliver_server p h m) u)
      = trace u @ [Server_message h m, Send_rejected p (as_Error t)]"
    if "snd (message_handler env h m) = Some t"
      "clientErrorHandler (snd (exec_calls (fst (message_handler env h m)) u)) = None"
    using deliver_server_raises_unobserved [OF that, of p] by simp
  have c: "trace (run_task env (Deliver_client m) u)
      = trace u @ [Client_message h m, Client_error eh (as_Error t)] @
          (case snd (error_handler env eh (as_Error t)) of
             None \<Rightarrow> []
           | Some t' \<Rightarrow> [Uncaught t'])"
    if "clientMessageHandler u = Some h" "snd (message_handler env h m) = Some t"
      "clientErrorHandler (snd (exec_calls (fst (message_handler env h m)) u)) = Some eh"
    using deliver_client_raises_observed [OF that] by simp
  show ?thesis
    using a b c by simp
qed

theorem error_normalisation_witness:
  "snd (message_handler test_env 7 echo_request) = Some (Thrown_primitive (PString ''oops''))
   \<and> clientErrorHandler (wired\<lparr>serverMessageHandler := Some 7\<rparr>) = Some 3
   \<and> trace (run_task test_env (Deliver_server 0 7 echo_request) (wired\<lparr>serverMessageHandler := Some 7\<rparr>))
       = [Server_message 7 echo_request, Client_error 3 (Error ''oops''), Send_rejected 0 (Error ''oops'')]
   \<and> trace (run_task test_env (Deliver_server 0 7 echo_request)
              (wired\<lparr>serverMessageHandler := Some 7, clientErrorHandler := None\<rparr>))
       = [Server_message 7 echo_request, Send_rejected 0 (Error ''oops'')]
   \<and> clientMessageHandler (wired\<lparr>clientMessageHandler := Some 7\<rparr>) = Some 7
   \<and> trace (run_task test_env (Deliver_client echo_request) (wired\<lparr>clientMessageHandler := Some 7\<rparr>))
       = [Client_message 7 echo_request, Client_error 3 (Error ''oops'')]
   \<and> trace (run_task test_env (Deliver_server 0 5 echo_request) wired_failing)
       = [Server_message 5 echo_request, Client_error 3 (Error ''server fail''),
          Send_rejected 0 (Error ''server fail'')]"
proof -
  let ?t = "Thrown_primitive (PString ''oops'')"
  let ?w1 = "wired\<lparr>serverMessageHandler := Some 7\<rparr>"
  let ?w2 = "wired\<lparr>serverMessageHandler := Some 7, clientErrorHandler := None\<rparr>"
  let ?w3 = "wired\<lparr>clientMessageHandler := Some 7\<rparr>"
  have facts: "snd (message_handler test_env 7 echo_request) = Some ?t"
    "clientErrorHandler (snd (exec_calls (fst (message_handler test_env 7 echo_request)) ?w1)) = Some 3"
    "clientErrorHandler (snd (exec_calls (fst (message_handler test_env 7 echo_request)) ?w2)) = None"
    "clientErrorHandler (snd (exec_calls (fst (message_handler test_env 7 echo_request)) ?w3)) = Some 3"
    "clientMessageHandler ?w3 = Some 7" "clientErrorHandler ?w1 = Some 3"
    "trace ?w1 = []" "trace ?w2 = []" "trace ?w3 = []"
    "snd (error_handler test_env 3 (as_Error ?t)) = None"
    by (simp_all add: wired_def test_env_def)
  have facts5: "snd (message_handler test_env 5 echo_request) = Some (Thrown_error (Error ''server fail''))"
    "clientErrorHandler (snd (exec_calls (fst (message_handler test_env 5 echo_request)) wired_failing))
       = Some 3"
    "snd (error_handler test_env 3 (as_Error (Thrown_error (Error ''server fail'')))) = None"
    "trace wired_failing = []"
    by (simp_all add: wired_failing_def wired_def test_env_def)
  from error_normalisation [where env = test_env and h = 7 and m = echo_request and t = ?t
      and u = ?w1 and eh = 3 and p = 0] facts(1,2)
  have "trace (run_task test_env (Deliver_server 0 7 echo_request) ?w1)
      = trace ?w1 @ [Server_message 7 echo_request, Client_error 3 (as_Error ?t)] @
          (case snd (error_handler test_env 3 (as_Error ?t)) of
             None \<Rightarrow> [Send_rejected 0 (as_Error ?t)]
           | Some t' \<Rightarrow> [Uncaught t'])"
    by blast
  then have a: "trace (run_task test_env (Deliver_server 0 7 echo_request) ?w1)
       = [Server_message 7 echo_request, Client_error 3 (Error ''oops''), Send_rejected 0 (Error ''oops'')]"
    using facts(7,10) by simp
  from error_normalisation [where env = test_env and h = 7 and m = echo_request and t = ?t
      and u = ?w2 and eh = 3 and p = 0] facts(1,3)
  have "trace (run_task test_env (Deliver_server 0 7 echo_request) ?w2)
      = trace ?w2 @ [Server_message 7 echo_request, Send_rejected 0 (as_Error ?t)]"
    by blast
  then have b: "trace (run_task test_env (Deliver_server 0 7 echo_request) ?w2)
       = [Server_message 7 echo_request, Send_rejected 0 (Error ''oops'')]"
    using facts(8) by simp
  from error_normalisation [where env = test_env and h = 7 and m = echo_request and t = ?t
      and u = ?w3 and eh = 3 and p = 0] facts(1,4,5)
  have "trace (run_task test_env (Deliver_client echo_request) ?w3)
      = trace ?w3 @ [Client_message 7 echo_request, Client_error 3 (as_Error ?t)] @
          (case snd (error_handler test_env 3 (as_Error ?t)) of
             None \<Rightarrow> []
           | Some t' \<Rightarrow> [Uncaught t'])"
    by blast
  then have c: "trace (run_task test_env (Deliver_client echo_request) ?w3)
       = [Client_message 7 echo_request, Client_error 3 (Error ''oops'')]"
    using facts(9,10) by simp
  from error_normalisation [where env = test_env and h = 5 and m = echo_request
      and t = "Thrown_error (Error ''server fail'')" and u = wired_failing and eh = 3 and p = 0]
    facts5(1,2)
  have "trace (run_task test_env (Deliver_server 0 5 echo_request) wired_failing)
      = trace wired_failing @ [Server_message 5 echo_request,
            Client_error 3 (as_Error (Thrown_error (Error ''server fail'')))] @
          (case snd (error_handler test_env 3 (as_Error (Thrown_error (Error ''server fail'')))) of
             None \<Rightarrow> [Send_rejected 0 (as_Error (Thrown_error (Error ''server fail'')))]
           | Some t' \<Rightarrow> [Uncaught t'])"
    by blast
  then have d: "trace (run_task test_env (Deliver_server 0 5 echo_request) wired_failing)
       = [Server_message 5 echo_request, Client_error 3 (Error ''server fail''),
          Send_rejected 0 (Error ''server fail'')]"
    using facts5(3,4) by simp
  show ?thesis using facts(1,5,6) a b c d by blast
qed

end
